theory Spec2Isabelle
  imports Main "HOL-Library.Multiset"
begin

text \<open>
  The agent builder (component \<open>CreateAgent\<close>) shows a test chat on its configuration
  step.  An effect watches the configuration, and 800 ms after the last change it runs an
  automatic preview: a synthetic question sent to the agent with a short-lived session
  token.  The user can also send test messages; once they have, previews stop.  The chat
  page (component \<open>AgentChatPage\<close>) keeps the same token cache and clears it when the
  agent changes.  This theory embeds the token cache, the debounce effect, the preview
  round and the test message as functions on an explicit state, with one step function for
  the events of the page, and proves the properties claimed of them.
\<close>

section \<open>Strings of the host language\<close>

text \<open>
  A character stands for one code unit below 256.  The functions of this section are the
  string built-ins the preview controller calls: \<open>startsWith\<close>, \<open>trim\<close>,
  \<open>toUpperCase\<close>, \<open>Array.prototype.join\<close>, the decimal rendering of an integral
  number and \<open>JSON.stringify\<close> on strings, booleans and flat objects.
\<close>

definition startsWith :: "string \<Rightarrow> string \<Rightarrow> bool" where
  "startsWith s p = (take (length p) s = p)"

definition is_space :: "char \<Rightarrow> bool" where
  "is_space c = (c \<in> set [CHR 0x09, CHR 0x0A, CHR 0x0B, CHR 0x0C, CHR 0x0D, CHR 0x20, CHR 0xA0])"

definition trim :: "string \<Rightarrow> string" where
  "trim s = rev (dropWhile is_space (rev (dropWhile is_space s)))"

definition toUpperCase :: "string \<Rightarrow> string" where
  "toUpperCase s =
     map (\<lambda>c. if 97 \<le> (of_char c :: nat) \<and> (of_char c :: nat) \<le> 122
               then char_of ((of_char c :: nat) - 32) else c) s"

fun join :: "string \<Rightarrow> string list \<Rightarrow> string" where
  "join sep [] = []"
| "join sep [x] = x"
| "join sep (x # y # ys) = x @ sep @ join sep (y # ys)"

definition digit_char :: "nat \<Rightarrow> char" where
  "digit_char d = ''0123456789abcdef'' ! (d mod 16)"

function digits :: "nat \<Rightarrow> string" where
  "digits n = (if n < 10 then [digit_char n] else digits (n div 10) @ [digit_char (n mod 10)])"
  by pat_completeness auto
termination
  by (relation "measure (\<lambda>n. n)") auto

declare digits.simps [simp del]

text \<open>\<open>String(n)\<close> for an integral number \<open>n\<close>.\<close>

definition show_int :: "int \<Rightarrow> string" where
  "show_int i = (if i < 0 then CHR ''-'' # digits (nat (- i)) else digits (nat i))"

definition json_escape :: "char \<Rightarrow> string" where
  "json_escape c =
     (if c = CHR 0x22 then [CHR 0x5C, CHR 0x22]
      else if c = CHR 0x5C then [CHR 0x5C, CHR 0x5C]
      else if c = CHR 0x08 then [CHR 0x5C, CHR ''b'']
      else if c = CHR 0x0C then [CHR 0x5C, CHR ''f'']
      else if c = CHR 0x0A then [CHR 0x5C, CHR ''n'']
      else if c = CHR 0x0D then [CHR 0x5C, CHR ''r'']
      else if c = CHR 0x09 then [CHR 0x5C, CHR ''t'']
      else if (of_char c :: nat) < 32
        then [CHR 0x5C, CHR ''u'', CHR ''0'', CHR ''0'',
              digit_char ((of_char c :: nat) div 16), digit_char ((of_char c :: nat) mod 16)]
      else [c])"

definition json_string :: "string \<Rightarrow> string" where
  "json_string s = [CHR 0x22] @ concat (map json_escape s) @ [CHR 0x22]"

definition json_bool :: "bool \<Rightarrow> string" where
  "json_bool b = (if b then ''true'' else ''false'')"

text \<open>An object literal whose members are given in the order they were written.\<close>

definition json_object :: "(string \<times> string) list \<Rightarrow> string" where
  "json_object kvs = ''{'' @ join '','' (map (\<lambda>(k, v). json_string k @ '':'' @ v) kvs) @ ''}''"

section \<open>Data model\<close>

datatype role = User | Assistant

record message =
  id_msg :: string
  role :: role
  content :: string

record agent =
  id_agent :: int
  public_id :: string

datatype DomainKey = Saas | Ecommerce | Healthcare | Fintech | Education | Custom

fun domain_str :: "DomainKey \<Rightarrow> string" where
  "domain_str Saas = ''saas''"
| "domain_str Ecommerce = ''ecommerce''"
| "domain_str Healthcare = ''healthcare''"
| "domain_str Fintech = ''fintech''"
| "domain_str Education = ''education''"
| "domain_str Custom = ''custom''"

datatype grounding = Strict | Blended

fun grounding_str :: "grounding \<Rightarrow> string" where
  "grounding_str Strict = ''strict''"
| "grounding_str Blended = ''blended''"

text \<open>
  The configuration snapshot: the ten values the debounce effect serialises.  The expertise
  level is a floating-point number; its type is left open (\<open>'n\<close>) and its JSON rendering is
  a parameter \<open>num\<close> of the hash.  Document ids are integral numbers.
\<close>

record 'n config =
  domainEnabled :: bool
  selectedPersona :: string
  selectedDocs :: "int list"
  webSearchEnabled :: bool
  siteWhitelist :: string
  groundingMode :: grounding
  expertiseLevel :: 'n
  additionalContext :: string
  personaOverrides :: string
  domain :: DomainKey

section \<open>Real user activity\<close>

text \<open>\<open>message.role === 'user' && !message.id.startsWith('preview-')\<close>\<close>

definition is_real_user :: "message \<Rightarrow> bool" where
  "is_real_user m = (role m = User \<and> \<not> startsWith (id_msg m) ''preview-'')"

text \<open>\<open>messages.some(...)\<close>\<close>

definition has_real_user :: "message list \<Rightarrow> bool" where
  "has_real_user ms = list_ex is_real_user ms"

section \<open>Configuration hash\<close>

text \<open>\<open>selectedDocs.slice().sort((a, b) => a - b).join(',')\<close>\<close>

definition docHash :: "int list \<Rightarrow> string" where
  "docHash docs = join '','' (map show_int (sort docs))"

definition config_hash :: "('n \<Rightarrow> string) \<Rightarrow> 'n config \<Rightarrow> string" where
  "config_hash num c = json_object
     [(''domainEnabled'', json_bool (domainEnabled c)),
      (''selectedPersona'', json_string (selectedPersona c)),
      (''docHash'', json_string (docHash (selectedDocs c))),
      (''webSearchEnabled'', json_bool (webSearchEnabled c)),
      (''siteWhitelist'', json_string (siteWhitelist c)),
      (''groundingMode'', json_string (grounding_str (groundingMode c))),
      (''expertiseLevel'', num (expertiseLevel c)),
      (''additionalContext'', json_string (additionalContext c)),
      (''personaOverrides'', json_string (personaOverrides c)),
      (''domain'', json_string (domain_str (domain c)))]"

section \<open>Session token cache\<close>

record token_cache =
  sessionToken :: "string option"
  sessionTokenExpiry :: "int option"

datatype error = AgentNotReady | RequestFailed

text \<open>
  \<open>ensureAgentSessionToken\<close> up to its \<open>await\<close>: it throws, returns the cached token
  or starts a request to the token issuer.  A cached token is used when
  \<open>sessionToken && sessionTokenExpiry && sessionTokenExpiry - safetyWindow > now\<close>; the
  empty string and the number zero are falsy.
\<close>

datatype ensure_outcome = NotReady | Reuse string | Refresh

definition safetyWindow :: int where
  "safetyWindow = 5000"

definition ensure_start :: "bool \<Rightarrow> token_cache \<Rightarrow> int \<Rightarrow> ensure_outcome" where
  "ensure_start ready c t =
     (if \<not> ready then NotReady
      else case sessionToken c of
             None \<Rightarrow> Refresh
           | Some tok \<Rightarrow>
               (case sessionTokenExpiry c of
                  None \<Rightarrow> Refresh
                | Some ex \<Rightarrow>
                    if tok \<noteq> [] \<and> ex \<noteq> 0 \<and> ex - safetyWindow > t then Reuse tok else Refresh))"

text \<open>
  After the \<open>await\<close>: the issuer answered \<open>(token, expires_in)\<close> and \<open>Date.now()\<close> is
  \<open>t'\<close>.
\<close>

definition ensure_finish :: "string \<times> int \<Rightarrow> int \<Rightarrow> token_cache" where
  "ensure_finish r t' = \<lparr>sessionToken = Some (fst r), sessionTokenExpiry = Some (t' + snd r * 1000)\<rparr>"

text \<open>
  One whole call seen by its caller: the cache \<open>c\<close> and the clock \<open>t\<close> at the call, the
  issuer's answer \<open>resp\<close> (\<open>None\<close> when the request fails) and the clock \<open>t'\<close> when it
  arrives.  The result is what is returned or thrown, the cache afterwards and the number of
  requests sent to the token issuer.
\<close>

definition ensureAgentSessionToken ::
  "bool \<Rightarrow> token_cache \<Rightarrow> int \<Rightarrow> (string \<times> int) option \<Rightarrow> int \<Rightarrow> (error + string) \<times> token_cache \<times> nat" where
  "ensureAgentSessionToken ready c t resp t' =
     (case ensure_start ready c t of
        NotReady \<Rightarrow> (Inl AgentNotReady, c, 0)
      | Reuse tok \<Rightarrow> (Inr tok, c, 0)
      | Refresh \<Rightarrow>
          (case resp of
             None \<Rightarrow> (Inl RequestFailed, c, 1)
           | Some r \<Rightarrow> (Inr (fst r), ensure_finish r t', 1)))"

text \<open>\<open>!agentId || !createdAgent\<close> of the agent builder; \<open>!agent\<close> of the chat page.\<close>

definition agent_ready :: "int option \<Rightarrow> agent option \<Rightarrow> bool" where
  "agent_ready aid ag = (aid \<noteq> None \<and> aid \<noteq> Some 0 \<and> ag \<noteq> None)"

subsection \<open>The chat page: invalidation when the agent changes\<close>

record chat_page =
  cp_agent :: "agent option"
  cp_tokens :: token_cache




section \<open>The preview controller of the agent builder\<close>

text \<open>
  What \<open>runAutoPreview\<close> closes over: the agent, the configuration values it reads and,
  through \<open>ensureAgentSessionToken\<close>, the agent id and the token cache of the render that
  created it.
\<close>

record closure =
  c_createdAgent :: "agent option"
  c_agentId :: "int option"
  c_domain :: DomainKey
  c_domainEnabled :: bool
  c_selectedDocs :: "int list"
  c_selectedPersona :: string
  c_webSearchEnabled :: bool
  c_tokens :: token_cache

text \<open>A pending timer: its handle, when it is due, and the callback's hash and closure.\<close>

record timer =
  handle :: nat
  due :: int
  t_hash :: string
  t_run :: closure

record session_context =
  preview :: bool
  ctx_domain :: DomainKey
  persona :: string
  knowledge_docs_selected :: nat
  web_search_enabled :: bool

text \<open>
  The visitor id is \<open>builder-preview-<id>\<close> for a preview and \<open>builder-<id>-<random>\<close>
  for a test message; the random suffix is not modelled.
\<close>

datatype visitor = BuilderPreview int | Builder int

text \<open>
  Requests on the wire: the token issuer, called with the agent id, and the chat transport,
  called with the public id, the token, the message, the visitor and the session context.
\<close>

datatype request =
    TokenRequest "int option"
  | ChatRequest string string string visitor "session_context option"

text \<open>A function suspended at an \<open>await\<close>, with the values it still needs.\<close>

datatype task =
    PreviewAwaitToken closure agent message
  | PreviewAwaitChat message
  | TestAwaitToken agent string
  | TestAwaitChat

record controller =
  timeout :: "nat option"
  hash :: string

record 'n state =
  now :: int
  currentStep :: int
  agentId :: "int option"
  createdAgent :: "agent option"
  cfg :: "'n config"
  messages :: "message list"
  messagesRef :: "message list"
  input :: string
  tokens :: token_cache
  previewController :: controller
  has_cleanup :: bool
  timers :: "timer list"
  next_timer :: nat
  inflight :: "(nat \<times> task) list"
  next_task :: nat
  sent :: "request list"

definition closure_of :: "'n state \<Rightarrow> closure" where
  "closure_of s =
     \<lparr>c_createdAgent = createdAgent s, c_agentId = agentId s, c_domain = domain (cfg s),
      c_domainEnabled = domainEnabled (cfg s), c_selectedDocs = selectedDocs (cfg s),
      c_selectedPersona = selectedPersona (cfg s), c_webSearchEnabled = webSearchEnabled (cfg s),
      c_tokens = tokens s\<rparr>"

subsection \<open>Timers\<close>

definition clearTimeout :: "nat \<Rightarrow> 'n state \<Rightarrow> 'n state" where
  "clearTimeout h s = s\<lparr>timers := filter (\<lambda>t. handle t \<noteq> h) (timers s)\<rparr>"

text \<open>
  \<open>if (controller.timeout) { clearTimeout(controller.timeout); controller.timeout = null; }\<close>
\<close>

definition clear_pending :: "'n state \<Rightarrow> 'n state" where
  "clear_pending s =
     (case timeout (previewController s) of
        None \<Rightarrow> s
      | Some h \<Rightarrow> (clearTimeout h s)\<lparr>previewController := (previewController s)\<lparr>timeout := None\<rparr>\<rparr>)"

subsection \<open>The conversation log\<close>

text \<open>The two effects that depend on \<open>messages\<close>, in the order they are declared.\<close>

definition sync_messagesRef :: "'n state \<Rightarrow> 'n state" where
  "sync_messagesRef s = s\<lparr>messagesRef := messages s\<rparr>"

definition cancel_on_real_user :: "'n state \<Rightarrow> 'n state" where
  "cancel_on_real_user s = (if has_real_user (messages s) then clear_pending s else s)"

definition setMessages :: "message list \<Rightarrow> 'n state \<Rightarrow> 'n state" where
  "setMessages ms s = cancel_on_real_user (sync_messagesRef (s\<lparr>messages := ms\<rparr>))"

subsection \<open>The automatic preview\<close>

definition previewPrompt :: "closure \<Rightarrow> string" where
  "previewPrompt c =
     (let docCount = length (c_selectedDocs c)
      in if c_domainEnabled c
         then ''We just set you up as a '' @ toUpperCase (domain_str (c_domain c))
                @ '' concierge with persona '' @ [CHR 0x22] @ c_selectedPersona c @ [CHR 0x22]
                @ ''. In two sentences, explain how you'' @ [CHR 0x27] @ ''ll help customers''
                @ (if docCount \<noteq> 0
                   then '' using '' @ show_int (int docCount) @ '' curated source''
                          @ (if docCount > 1 then ''s'' else [])
                   else [])
                @ ''.''
         else ''Introduce yourself and explain the types of help you provide in two concise sentences.'')"

definition previewUserMessage :: "closure \<Rightarrow> int \<Rightarrow> message" where
  "previewUserMessage c t =
     \<lparr>id_msg = ''preview-user-'' @ show_int t, role = User, content = previewPrompt c\<rparr>"

text \<open>\<open>data.response || '(no response)'\<close>\<close>

definition response_text :: "string \<Rightarrow> string" where
  "response_text r = (if r = [] then ''(no response)'' else r)"

definition previewAssistantMessage :: "string \<Rightarrow> int \<Rightarrow> message" where
  "previewAssistantMessage r t =
     \<lparr>id_msg = ''preview-assistant-'' @ show_int (t + 1), role = Assistant,
      content = response_text r\<rparr>"

definition previewErrorMessage :: "int \<Rightarrow> message" where
  "previewErrorMessage t =
     \<lparr>id_msg = ''preview-error-'' @ show_int (t + 1), role = Assistant,
      content = ''Preview unavailable right now. Try again after a moment.''\<rparr>"

definition suspend :: "task \<Rightarrow> 'n state \<Rightarrow> 'n state" where
  "suspend k s = s\<lparr>inflight := inflight s @ [(next_task s, k)], next_task := Suc (next_task s)\<rparr>"

definition resume :: "nat \<Rightarrow> 'n state \<Rightarrow> 'n state" where
  "resume k s = s\<lparr>inflight := filter (\<lambda>p. fst p \<noteq> k) (inflight s)\<rparr>"

definition send :: "request \<Rightarrow> 'n state \<Rightarrow> 'n state" where
  "send r s = s\<lparr>sent := sent s @ [r]\<rparr>"

text \<open>
  The \<open>catch\<close> branch of \<open>runAutoPreview\<close>: it returns when the ref holds a real user
  message, else \<open>setMessages([previewUserMessage, errMsg])\<close>.
\<close>

definition preview_catch :: "message \<Rightarrow> 'n state \<Rightarrow> 'n state" where
  "preview_catch pum s =
     (if has_real_user (messagesRef s) then s
      else setMessages [pum, previewErrorMessage (now s)] s)"

text \<open>\<open>await chatApi.sendMessage(...)\<close> of \<open>runAutoPreview\<close>.\<close>

definition preview_request :: "closure \<Rightarrow> agent \<Rightarrow> string \<Rightarrow> request" where
  "preview_request c ag tok =
     ChatRequest (public_id ag) tok (previewPrompt c) (BuilderPreview (id_agent ag))
       (Some \<lparr>preview = True, ctx_domain = c_domain c, persona = c_selectedPersona c,
              knowledge_docs_selected = length (c_selectedDocs c),
              web_search_enabled = (if c_domainEnabled c then c_webSearchEnabled c else False)\<rparr>)"

definition preview_send :: "closure \<Rightarrow> agent \<Rightarrow> string \<Rightarrow> message \<Rightarrow> 'n state \<Rightarrow> 'n state" where
  "preview_send c ag tok pum s = suspend (PreviewAwaitChat pum) (send (preview_request c ag tok) s)"

text \<open>
  The code after a successful chat answer: it returns when the ref holds a real user
  message, else \<open>setMessages([previewUserMessage, assistantMsg])\<close>.
\<close>

definition preview_done :: "message \<Rightarrow> string \<Rightarrow> 'n state \<Rightarrow> 'n state" where
  "preview_done pum r s =
     (if has_real_user (messagesRef s) then s
      else setMessages [pum, previewAssistantMessage r (now s)] s)"

text \<open>
  \<open>runAutoPreview\<close> up to its first \<open>await\<close> that waits for the network: the two
  guards, the synthetic prompt written to the log, and the call of
  \<open>ensureAgentSessionToken\<close> of its closure, which throws into the \<open>catch\<close> branch,
  returns the cached token (the chat request follows at once) or asks the token issuer.
\<close>

definition runAutoPreview :: "closure \<Rightarrow> 'n state \<Rightarrow> 'n state" where
  "runAutoPreview c s =
     (case c_createdAgent c of
        None \<Rightarrow> s
      | Some ag \<Rightarrow>
          if has_real_user (messagesRef s) then s
          else let pum = previewUserMessage c (now s);
                   s1 = setMessages [pum] s
               in (case ensure_start (agent_ready (c_agentId c) (c_createdAgent c)) (c_tokens c) (now s1) of
                     NotReady \<Rightarrow> preview_catch pum s1
                   | Reuse tok \<Rightarrow> preview_send c ag tok pum s1
                   | Refresh \<Rightarrow>
                       suspend (PreviewAwaitToken c ag pum) (send (TokenRequest (c_agentId c)) s1)))"

subsection \<open>The manual test message\<close>

definition testErrorMessage :: "int \<Rightarrow> message" where
  "testErrorMessage t =
     \<lparr>id_msg = show_int (t + 1), role = Assistant, content = ''Error sending message. Try again.''\<rparr>"

definition test_catch :: "'n state \<Rightarrow> 'n state" where
  "test_catch s = setMessages (messages s @ [testErrorMessage (now s)]) s"

definition test_send :: "agent \<Rightarrow> string \<Rightarrow> string \<Rightarrow> 'n state \<Rightarrow> 'n state" where
  "test_send ag tok txt s =
     suspend TestAwaitChat (send (ChatRequest (public_id ag) tok txt (Builder (id_agent ag)) None) s)"

definition test_done :: "string \<Rightarrow> 'n state \<Rightarrow> 'n state" where
  "test_done r s =
     setMessages (messages s @ [\<lparr>id_msg = show_int (now s + 1), role = Assistant,
                                 content = response_text r\<rparr>]) s"

text \<open>
  \<open>sendTestMessage\<close> up to its first \<open>await\<close> that waits for the network: the guard
  \<open>if (!input.trim() || !createdAgent) return;\<close>, the user's message appended to the
  log, the input cleared, and the call of \<open>ensureAgentSessionToken\<close>.
\<close>

definition sendTestMessage :: "'n state \<Rightarrow> 'n state" where
  "sendTestMessage s =
     (case createdAgent s of
        None \<Rightarrow> s
      | Some ag \<Rightarrow>
          if trim (input s) = [] then s
          else let userMsg = \<lparr>id_msg = show_int (now s), role = User, content = trim (input s)\<rparr>;
                   s1 = (setMessages (messages s @ [userMsg]) s)\<lparr>input := []\<rparr>
               in (case ensure_start (agent_ready (agentId s) (createdAgent s)) (tokens s) (now s) of
                     NotReady \<Rightarrow> test_catch s1
                   | Reuse tok \<Rightarrow> test_send ag tok (content userMsg) s1
                   | Refresh \<Rightarrow>
                       suspend (TestAwaitToken ag (content userMsg))
                         (send (TokenRequest (agentId s)) s1)))"

subsection \<open>The debounce effect\<close>

definition set_hash :: "string \<Rightarrow> 'n state \<Rightarrow> 'n state" where
  "set_hash h s = s\<lparr>previewController := (previewController s)\<lparr>hash := h\<rparr>\<rparr>"

text \<open>
  The body of the effect: the teardown branch (not on step 3, or no agent), the branch for a
  log with a real user message, the comparison of the snapshot's hash with the recorded
  one, and the arming of the timer.  \<open>has_cleanup\<close> records whether this run returned a
  cleanup function, which it does only when it armed a timer.
\<close>

definition debounce_effect :: "('n \<Rightarrow> string) \<Rightarrow> 'n state \<Rightarrow> 'n state" where
  "debounce_effect num s =
     (if currentStep s \<noteq> 3 \<or> createdAgent s = None \<or> agentId s = None \<or> agentId s = Some 0
      then (set_hash [] (clear_pending s))\<lparr>has_cleanup := False\<rparr>
      else if has_real_user (messagesRef s)
      then (set_hash [] s)\<lparr>has_cleanup := False\<rparr>
      else let h = config_hash num (cfg s)
           in if hash (previewController s) = h then s\<lparr>has_cleanup := False\<rparr>
              else let s1 = (case timeout (previewController s) of
                               None \<Rightarrow> s
                             | Some old \<Rightarrow> clearTimeout old s);
                       t = \<lparr>handle = next_timer s1, due = now s1 + 800, t_hash = h,
                            t_run = closure_of s1\<rparr>
                   in s1\<lparr>timers := timers s1 @ [t],
                         next_timer := Suc (next_timer s1),
                         previewController := (previewController s1)\<lparr>timeout := Some (handle t)\<rparr>,
                         has_cleanup := True\<rparr>)"

text \<open>The cleanup function the arming run returned.\<close>

definition debounce_cleanup :: "'n state \<Rightarrow> 'n state" where
  "debounce_cleanup s = (if has_cleanup s then clear_pending s else s)"

text \<open>A dependency of the effect changed: the old cleanup runs, then the body.\<close>

definition rerun_debounce :: "('n \<Rightarrow> string) \<Rightarrow> 'n state \<Rightarrow> 'n state" where
  "rerun_debounce num s = debounce_effect num (debounce_cleanup s)"

text \<open>The component is removed from the page: the cleanup runs, the body does not.\<close>

definition unmount :: "'n state \<Rightarrow> 'n state" where
  "unmount s = (debounce_cleanup s)\<lparr>has_cleanup := False\<rparr>"

text \<open>
  The timer callback \<open>controller.hash = hash; runAutoPreview();\<close>.  A timer runs only when
  it is pending and due.
\<close>

definition fire_timer :: "nat \<Rightarrow> 'n state \<Rightarrow> 'n state" where
  "fire_timer h s =
     (case find (\<lambda>t. handle t = h) (timers s) of
        None \<Rightarrow> s
      | Some t \<Rightarrow>
          if now s < due t then s
          else runAutoPreview (t_run t) (set_hash (t_hash t) (clearTimeout h s)))"

subsection \<open>Answers from the network\<close>

text \<open>
  \<open>setSessionToken\<close> and \<open>setSessionTokenExpiry\<close>: when either value differs from the
  previous render, \<open>ensureAgentSessionToken\<close> and with it \<open>runAutoPreview\<close> are new
  functions, and the debounce effect runs again.
\<close>

definition set_tokens :: "('n \<Rightarrow> string) \<Rightarrow> token_cache \<Rightarrow> 'n state \<Rightarrow> 'n state" where
  "set_tokens num c s = (if c = tokens s then s else rerun_debounce num (s\<lparr>tokens := c\<rparr>))"

definition on_token_response ::
  "('n \<Rightarrow> string) \<Rightarrow> nat \<Rightarrow> (string \<times> int) option \<Rightarrow> 'n state \<Rightarrow> 'n state" where
  "on_token_response num k resp s =
     (case map_of (inflight s) k of
        Some (PreviewAwaitToken c ag pum) \<Rightarrow>
          (case resp of
             None \<Rightarrow> preview_catch pum (resume k s)
           | Some r \<Rightarrow>
               preview_send c ag (fst r) pum (set_tokens num (ensure_finish r (now s)) (resume k s)))
      | Some (TestAwaitToken ag txt) \<Rightarrow>
          (case resp of
             None \<Rightarrow> test_catch (resume k s)
           | Some r \<Rightarrow>
               test_send ag (fst r) txt (set_tokens num (ensure_finish r (now s)) (resume k s)))
      | _ \<Rightarrow> s)"

definition on_chat_response :: "nat \<Rightarrow> string option \<Rightarrow> 'n state \<Rightarrow> 'n state" where
  "on_chat_response k resp s =
     (case map_of (inflight s) k of
        Some (PreviewAwaitChat pum) \<Rightarrow>
          (case resp of
             None \<Rightarrow> preview_catch pum (resume k s)
           | Some r \<Rightarrow> preview_done pum r (resume k s))
      | Some TestAwaitChat \<Rightarrow>
          (case resp of
             None \<Rightarrow> test_catch (resume k s)
           | Some r \<Rightarrow> test_done r (resume k s))
      | _ \<Rightarrow> s)"

subsection \<open>Events\<close>

text \<open>
  One event is one turn of the event loop together with the render it causes and the
  effects of that render, so the ref is in step with the log whenever the next event
  begins.  \<open>ConfigChange\<close> and \<open>AgentLoaded\<close> are state updates that change a
  dependency of the debounce effect (a new value of a field, a new array of document ids, a
  new agent record).  \<open>Elapse\<close> lets time pass; \<open>TimerFire\<close> is the runtime trying
  to run a timer; the two responses are the network answering a suspended call, with
  \<open>None\<close> for a failed request.
\<close>

datatype 'n event =
    ConfigChange "'n config"
  | SetCurrentStep int
  | SetAgentId "int option"
  | AgentLoaded "agent option"
  | SetInput string
  | SendTestMessage
  | Elapse nat
  | TimerFire nat
  | TokenResponse nat "(string \<times> int) option"
  | ChatResponse nat "string option"

fun step :: "('n \<Rightarrow> string) \<Rightarrow> 'n state \<Rightarrow> 'n event \<Rightarrow> 'n state" where
  "step num s (ConfigChange c) = rerun_debounce num (s\<lparr>cfg := c\<rparr>)"
| "step num s (SetCurrentStep n) =
     (if n = currentStep s then s else rerun_debounce num (s\<lparr>currentStep := n\<rparr>))"
| "step num s (SetAgentId a) =
     (if a = agentId s then s else rerun_debounce num (s\<lparr>agentId := a\<rparr>))"
| "step num s (AgentLoaded ag) = rerun_debounce num (s\<lparr>createdAgent := ag\<rparr>)"
| "step num s (SetInput v) = s\<lparr>input := v\<rparr>"
| "step num s SendTestMessage = sendTestMessage s"
| "step num s (Elapse d) = s\<lparr>now := now s + int d\<rparr>"
| "step num s (TimerFire h) = fire_timer h s"
| "step num s (TokenResponse k r) = on_token_response num k r s"
| "step num s (ChatResponse k r) = on_chat_response k r s"

definition run :: "('n \<Rightarrow> string) \<Rightarrow> 'n state \<Rightarrow> 'n event list \<Rightarrow> 'n state" where
  "run num s es = foldl (step num) s es"

text \<open>The component when it is mounted at time \<open>t\<close> with configuration \<open>c\<close>.\<close>

definition init :: "int \<Rightarrow> 'n config \<Rightarrow> 'n state" where
  "init t c =
     \<lparr>now = t, currentStep = 1, agentId = None, createdAgent = None, cfg = c, messages = [],
      messagesRef = [], input = [], tokens = \<lparr>sessionToken = None, sessionTokenExpiry = None\<rparr>,
      previewController = \<lparr>timeout = None, hash = []\<rparr>, has_cleanup = False, timers = [],
      next_timer = 1, inflight = [], next_task = 0, sent = []\<rparr>"

subsection \<open>Invariant of the controller\<close>

text \<open>The synthetic user prompt of a preview round.\<close>

definition is_preview_prompt :: "message \<Rightarrow> bool" where
  "is_preview_prompt m = (role m = User \<and> startsWith (id_msg m) ''preview-user-'')"

fun task_ok :: "task \<Rightarrow> bool" where
  "task_ok (PreviewAwaitToken c ag pum) = (is_preview_prompt pum \<and> content pum = previewPrompt c)"
| "task_ok (PreviewAwaitChat pum) = is_preview_prompt pum"
| "task_ok (TestAwaitToken ag txt) = True"
| "task_ok TestAwaitChat = True"

text \<open>
  The ref mirrors the log; every suspended preview round holds its own synthetic prompt; at
  most one timer is pending, and then it is the one the controller holds, the effect has a
  cleanup for it, its callback was made from the present values on the preview step, its
  hash is not the recorded one, and there has been no real user message.
\<close>

definition controller_ok :: "('n \<Rightarrow> string) \<Rightarrow> 'n state \<Rightarrow> bool" where
  "controller_ok num s =
     (messagesRef s = messages s \<and>
      list_all (\<lambda>p. task_ok (snd p)) (inflight s) \<and>
      (case timers s of
         [] \<Rightarrow> True
       | [t] \<Rightarrow> timeout (previewController s) = Some (handle t) \<and> has_cleanup s
                 \<and> t_run t = closure_of s \<and> t_hash t = config_hash num (cfg s)
                 \<and> t_hash t \<noteq> hash (previewController s)
                 \<and> currentStep s = 3 \<and> agent_ready (agentId s) (createdAgent s)
                 \<and> \<not> has_real_user (messages s)
       | _ \<Rightarrow> False))"

text \<open>Two parts of the invariant that survive a change of the effect's dependencies.\<close>

definition held :: "'n state \<Rightarrow> bool" where
  "held s =
     (case timers s of
        [] \<Rightarrow> True
      | [t] \<Rightarrow> timeout (previewController s) = Some (handle t) \<and> has_cleanup s
      | _ \<Rightarrow> False)"

definition tasks_ok :: "'n state \<Rightarrow> bool" where
  "tasks_ok s = list_all (\<lambda>p. task_ok (snd p)) (inflight s)"

section \<open>Notions used in the statements\<close>

subsection \<open>Observations on the network\<close>

text \<open>A chat request of the automatic preview carries \<open>preview: true\<close>.\<close>

fun is_preview_request :: "request \<Rightarrow> bool" where
  "is_preview_request (ChatRequest p tok m v (Some ctx)) = preview ctx"
| "is_preview_request _ = False"

fun awaits_token :: "task \<Rightarrow> bool" where
  "awaits_token (PreviewAwaitToken c ag pum) = True"
| "awaits_token _ = False"

fun is_preview_task :: "task \<Rightarrow> bool" where
  "is_preview_task (PreviewAwaitToken c ag pum) = True"
| "is_preview_task (PreviewAwaitChat pum) = True"
| "is_preview_task _ = False"

definition preview_requests :: "'n state \<Rightarrow> request list" where
  "preview_requests s = filter is_preview_request (sent s)"

definition count_tasks :: "(task \<Rightarrow> bool) \<Rightarrow> (nat \<times> task) list \<Rightarrow> nat" where
  "count_tasks P l = length (filter P (map snd l))"

text \<open>The preview rounds that are suspended, waiting for the token or for the chat answer.\<close>

definition pending_rounds :: "'n state \<Rightarrow> nat" where
  "pending_rounds s = count_tasks is_preview_task (inflight s)"

text \<open>
  The preview requests sent so far, plus the rounds that wait for their token and have
  their chat request still to send.
\<close>

definition request_budget :: "'n state \<Rightarrow> nat" where
  "request_budget s = length (preview_requests s) + count_tasks awaits_token (inflight s)"

subsection \<open>The log\<close>

text \<open>The log \<open>ms'\<close> is \<open>ms\<close> followed by messages whose ids are not tagged as preview.\<close>

definition untagged :: "message list \<Rightarrow> bool" where
  "untagged ms = list_all (\<lambda>m. \<not> startsWith (id_msg m) ''preview-'') ms"

definition grows_untagged :: "message list \<Rightarrow> message list \<Rightarrow> bool" where
  "grows_untagged ms ms' = (take (length ms) ms' = ms \<and> untagged (drop (length ms) ms'))"

subsection \<open>The token cache\<close>

text \<open>The test of \<open>ensureAgentSessionToken\<close> for using the cache.\<close>

definition cache_usable :: "token_cache \<Rightarrow> int \<Rightarrow> bool" where
  "cache_usable c t =
     (case sessionToken c of
        None \<Rightarrow> False
      | Some tok \<Rightarrow>
          (case sessionTokenExpiry c of
             None \<Rightarrow> False
           | Some ex \<Rightarrow> tok \<noteq> [] \<and> ex \<noteq> 0 \<and> ex - 5000 > t))"

subsection \<open>Bursts and rounds\<close>

text \<open>
  A burst of configuration changes: before each change some time passes and the runtime may
  try to run any timers.
\<close>

fun burst :: "(nat \<times> nat list \<times> 'n config) list \<Rightarrow> 'n event list" where
  "burst [] = []"
| "burst ((d, hs, c) # r) = Elapse d # map TimerFire hs @ ConfigChange c # burst r"

text \<open>The configuration after the first change \<open>c\<close> and the further changes of a burst.\<close>

fun last_config :: "'n config \<Rightarrow> (nat \<times> nat list \<times> 'n config) list \<Rightarrow> 'n config" where
  "last_config c [] = c"
| "last_config c ((d, hs, c') # r) = last_config c' r"

text \<open>What a burst leaves alone.\<close>

definition same_session :: "'n state \<Rightarrow> 'n state \<Rightarrow> bool" where
  "same_session s x =
     (sent x = sent s \<and> inflight x = inflight s \<and> next_task x = next_task s
      \<and> messages x = messages s
      \<and> hash (previewController x) = hash (previewController s) \<and> tokens x = tokens s
      \<and> agentId x = agentId s \<and> createdAgent x = createdAgent s
      \<and> currentStep x = currentStep s)"

text \<open>
  After a change: no timer when the snapshot's hash is the recorded hash \<open>H\<close>, otherwise
  one timer, due in 800 ms, for the present snapshot.
\<close>

definition armed_for :: "('n \<Rightarrow> string) \<Rightarrow> string \<Rightarrow> 'n state \<Rightarrow> bool" where
  "armed_for num H x =
     (if config_hash num (cfg x) = H then timers x = []
      else case timers x of
             [t] \<Rightarrow> due t = now x + 800 \<and> t_hash t = config_hash num (cfg x)
                      \<and> t_run t = closure_of x
           | _ \<Rightarrow> False)"

text \<open>
  The timer of \<open>x\<close> has run and has started one preview round from the values of
  \<open>x\<close>: the log is the synthetic prompt, and exactly one request has been sent, the chat
  request when the cached token is usable, the token request otherwise.
\<close>

definition starts_round :: "'n state \<Rightarrow> 'n state \<Rightarrow> bool" where
  "starts_round x y =
     (let cl = closure_of x; pum = previewUserMessage cl (now x)
      in timers y = [] \<and> messages y = [pum] \<and>
         (case createdAgent x of
            None \<Rightarrow> False
          | Some ag \<Rightarrow>
              (case ensure_start True (tokens x) (now x) of
                 Reuse tok \<Rightarrow>
                   sent y = sent x @ [preview_request cl ag tok] \<and>
                   inflight y = inflight x @ [(next_task x, PreviewAwaitChat pum)]
               | _ \<Rightarrow>
                   sent y = sent x @ [TokenRequest (agentId x)] \<and>
                   inflight y = inflight x @ [(next_task x, PreviewAwaitToken cl ag pum)])))"

text \<open>What a teardown leaves alone, apart from the controller.\<close>

definition torn_down :: "'n state \<Rightarrow> 'n state \<Rightarrow> bool" where
  "torn_down s x =
     (timers x = [] \<and> sent x = sent s \<and> inflight x = inflight s \<and> messages x = messages s
      \<and> tokens x = tokens s)"

section \<open>A concrete session\<close>

text \<open>
  The expertise level is taken in tenths and printed as JSON prints the slider's values:
  \<open>7\<close> is \<open>0.7\<close>, \<open>10\<close> is \<open>1\<close>.
\<close>

definition slider_json :: "nat \<Rightarrow> string" where
  "slider_json n =
     (if n mod 10 = 0 then digits (n div 10) else digits (n div 10) @ ''.'' @ digits (n mod 10))"

definition agentA :: agent where
  "agentA = \<lparr>id_agent = 7, public_id = ''pub7''\<rparr>"

definition agentB :: agent where
  "agentB = \<lparr>id_agent = 8, public_id = ''pub8''\<rparr>"

text \<open>The chat page of agent 7 with a token that expires at 3601000.\<close>

definition chat1 :: chat_page where
  "chat1 = \<lparr>cp_agent = Some agentA,
            cp_tokens = \<lparr>sessionToken = Some ''tok'', sessionTokenExpiry = Some 3601000\<rparr>\<rparr>"

definition no_cache :: token_cache where
  "no_cache = \<lparr>sessionToken = None, sessionTokenExpiry = None\<rparr>"

text \<open>Three configurations: the first, the first with web search on, and that with another persona.\<close>

definition cfg0 :: "nat config" where
  "cfg0 = \<lparr>domainEnabled = True, selectedPersona = ''support_expert'', selectedDocs = [12, 3],
           webSearchEnabled = False, siteWhitelist = [], groundingMode = Blended,
           expertiseLevel = 7, additionalContext = [], personaOverrides = [], domain = Saas\<rparr>"

definition cfg1 :: "nat config" where
  "cfg1 = cfg0\<lparr>webSearchEnabled := True\<rparr>"

definition cfg2 :: "nat config" where
  "cfg2 = cfg1\<lparr>selectedPersona := ''sales_rep''\<rparr>"

text \<open>
  The builder is mounted at time 1000; agent 7 is created and loaded and the builder
  reaches the configuration step, which arms the first timer.
\<close>

definition s_armed :: "nat state" where
  "s_armed = run slider_json (init 1000 cfg0)
      [SetAgentId (Some 7), AgentLoaded (Some agentA), SetCurrentStep 3]"

text \<open>The user sends \<open>hello\<close> before any preview has run.\<close>

definition s_manual :: "nat state" where
  "s_manual = run slider_json s_armed [SetInput ''hello'', SendTestMessage]"

text \<open>Otherwise 800 ms pass, the timer fires and the preview round asks for a token.\<close>

definition s_due :: "nat state" where
  "s_due = run slider_json s_armed [Elapse 800]"

definition s_fired :: "nat state" where
  "s_fired = run slider_json s_armed [Elapse 800, TimerFire 1]"

text \<open>The user sends \<open>hello\<close> while the round waits for its token.\<close>

definition s_real :: "nat state" where
  "s_real = run slider_json s_fired [SetInput ''hello'', SendTestMessage]"

text \<open>Otherwise the token arrives and the preview's chat request is in flight.\<close>

definition s_inflight :: "nat state" where
  "s_inflight = run slider_json s_fired [TokenResponse 0 (Some (''tok'', 3600))]"

text \<open>The user sends \<open>hello\<close> while it is.\<close>

definition s_race :: "nat state" where
  "s_race = run slider_json s_inflight [SetInput ''hello'', SendTestMessage]"

text \<open>
  Otherwise the preview's reply arrives and the round settles; switching web search on
  arms the second timer; 300 ms later web search is switched off again.
\<close>

definition s_settled :: "nat state" where
  "s_settled = run slider_json s_inflight [ChatResponse 1 (Some ''Hello'')]"

definition s_rearmed :: "nat state" where
  "s_rearmed = run slider_json s_settled [ConfigChange cfg1]"

definition s_back :: "nat state" where
  "s_back = run slider_json s_rearmed [Elapse 300, ConfigChange cfg0]"

text \<open>
  After the first preview the user goes back to the first step and submits the form again;
  the creation call answers with agent 8, whose record is not there at first and then
  arrives.
\<close>

definition s_switched :: "nat state" where
  "s_switched = run slider_json s_settled
      [SetCurrentStep 1, SetAgentId (Some 8), AgentLoaded None, AgentLoaded (Some agentB)]"

text \<open>The values that recur in the states of the session.\<close>

definition hash0 :: string where
  "hash0 = config_hash slider_json cfg0"

definition hash1 :: string where
  "hash1 = config_hash slider_json cfg1"

definition closure0 :: closure where
  "closure0 =
     \<lparr>c_createdAgent = Some agentA, c_agentId = Some 7, c_domain = Saas, c_domainEnabled = True,
      c_selectedDocs = [12, 3], c_selectedPersona = ''support_expert'',
      c_webSearchEnabled = False, c_tokens = no_cache\<rparr>"

definition prompt0 :: string where
  "prompt0 = previewPrompt closure0"

definition pum0 :: message where
  "pum0 = previewUserMessage (closure_of s_due) 1800"

definition tokens1 :: token_cache where
  "tokens1 = \<lparr>sessionToken = Some ''tok'', sessionTokenExpiry = Some 3601800\<rparr>"

definition hello_early :: message where
  "hello_early = \<lparr>id_msg = ''1000'', role = User, content = ''hello''\<rparr>"

definition hello_late :: message where
  "hello_late = \<lparr>id_msg = ''1800'', role = User, content = ''hello''\<rparr>"

definition request0 :: request where
  "request0 = preview_request closure0 agentA ''tok''"

definition reply0 :: message where
  "reply0 = previewAssistantMessage ''Hello'' 1800"

section \<open>The concrete session, evaluated\<close>

text \<open>
  Each state of the session, computed once from the state before it; later evaluations
  start from these values.
\<close>

lemma hash0_code [code]:
  "hash0 = concat
     [''{'', [CHR 0x22], ''domainEnabled'', [CHR 0x22], '':true,'',
      [CHR 0x22], ''selectedPersona'', [CHR 0x22], '':'', [CHR 0x22], ''support_expert'', [CHR 0x22], '','',
      [CHR 0x22], ''docHash'', [CHR 0x22], '':'', [CHR 0x22], ''3,12'', [CHR 0x22], '','',
      [CHR 0x22], ''webSearchEnabled'', [CHR 0x22], '':false,'',
      [CHR 0x22], ''siteWhitelist'', [CHR 0x22], '':'', [CHR 0x22], [CHR 0x22], '','',
      [CHR 0x22], ''groundingMode'', [CHR 0x22], '':'', [CHR 0x22], ''blended'', [CHR 0x22], '','',
      [CHR 0x22], ''expertiseLevel'', [CHR 0x22], '':0.7,'',
      [CHR 0x22], ''additionalContext'', [CHR 0x22], '':'', [CHR 0x22], [CHR 0x22], '','',
      [CHR 0x22], ''personaOverrides'', [CHR 0x22], '':'', [CHR 0x22], [CHR 0x22], '','',
      [CHR 0x22], ''domain'', [CHR 0x22], '':'', [CHR 0x22], ''saas'', [CHR 0x22], ''}'']"
  unfolding hash0_def by code_simp

lemma hash1_code [code]:
  "hash1 = concat
     [''{'', [CHR 0x22], ''domainEnabled'', [CHR 0x22], '':true,'',
      [CHR 0x22], ''selectedPersona'', [CHR 0x22], '':'', [CHR 0x22], ''support_expert'', [CHR 0x22], '','',
      [CHR 0x22], ''docHash'', [CHR 0x22], '':'', [CHR 0x22], ''3,12'', [CHR 0x22], '','',
      [CHR 0x22], ''webSearchEnabled'', [CHR 0x22], '':true,'',
      [CHR 0x22], ''siteWhitelist'', [CHR 0x22], '':'', [CHR 0x22], [CHR 0x22], '','',
      [CHR 0x22], ''groundingMode'', [CHR 0x22], '':'', [CHR 0x22], ''blended'', [CHR 0x22], '','',
      [CHR 0x22], ''expertiseLevel'', [CHR 0x22], '':0.7,'',
      [CHR 0x22], ''additionalContext'', [CHR 0x22], '':'', [CHR 0x22], [CHR 0x22], '','',
      [CHR 0x22], ''personaOverrides'', [CHR 0x22], '':'', [CHR 0x22], [CHR 0x22], '','',
      [CHR 0x22], ''domain'', [CHR 0x22], '':'', [CHR 0x22], ''saas'', [CHR 0x22], ''}'']"
  unfolding hash1_def by code_simp

lemma prompt0_code [code]:
  "prompt0 = concat
     [''We just set you up as a SAAS concierge with persona '', [CHR 0x22], ''support_expert'',
      [CHR 0x22], ''. In two sentences, explain how you'', [CHR 0x27],
      ''ll help customers using 2 curated sources.'']"
  unfolding prompt0_def by code_simp

lemma pum0_code [code]:
  "pum0 = \<lparr>id_msg = ''preview-user-1800'', role = User, content = prompt0\<rparr>"
  unfolding pum0_def by code_simp

lemma request0_code [code]:
  "request0 =
     ChatRequest ''pub7'' ''tok'' prompt0 (BuilderPreview 7)
       (Some \<lparr>preview = True, ctx_domain = Saas, persona = ''support_expert'',
              knowledge_docs_selected = 2, web_search_enabled = False\<rparr>)"
  unfolding request0_def by code_simp

lemma reply0_code [code]:
  "reply0 = \<lparr>id_msg = ''preview-assistant-1801'', role = Assistant, content = ''Hello''\<rparr>"
  unfolding reply0_def by code_simp

lemma s_armed_code [code]:
  "s_armed =
     \<lparr>now = 1000, currentStep = 3, agentId = Some 7, createdAgent = Some agentA, cfg = cfg0,
      messages = [], messagesRef = [], input = [], tokens = no_cache,
      previewController = \<lparr>timeout = Some 1, hash = []\<rparr>, has_cleanup = True,
      timers = [\<lparr>handle = 1, due = 1800, t_hash = hash0, t_run = closure0\<rparr>],
      next_timer = 2, inflight = [], next_task = 0, sent = []\<rparr>"
  by code_simp

lemma s_due_code [code]: "s_due = s_armed\<lparr>now := 1800\<rparr>"
  by code_simp

lemma s_fired_code [code]:
  "s_fired =
     s_due\<lparr>messages := [pum0], messagesRef := [pum0],
           previewController := \<lparr>timeout = Some 1, hash = hash0\<rparr>, timers := [],
           inflight := [(0, PreviewAwaitToken closure0 agentA pum0)], next_task := 1,
           sent := [TokenRequest (Some 7)]\<rparr>"
  by code_simp

lemma s_inflight_code [code]:
  "s_inflight =
     s_fired\<lparr>tokens := tokens1, previewController := \<lparr>timeout = None, hash = hash0\<rparr>,
             has_cleanup := False, inflight := [(1, PreviewAwaitChat pum0)], next_task := 2,
             sent := [TokenRequest (Some 7), request0]\<rparr>"
  by code_simp

lemma s_settled_code [code]:
  "s_settled =
     s_inflight\<lparr>messages := [pum0, reply0], messagesRef := [pum0, reply0], inflight := []\<rparr>"
  by code_simp

lemma s_rearmed_code [code]:
  "s_rearmed =
     s_settled\<lparr>cfg := cfg1, previewController := \<lparr>timeout = Some 2, hash = hash0\<rparr>,
               has_cleanup := True,
               timers := [\<lparr>handle = 2, due = 2600, t_hash = hash1,
                           t_run = closure0\<lparr>c_webSearchEnabled := True, c_tokens := tokens1\<rparr>\<rparr>],
               next_timer := 3\<rparr>"
  by code_simp

lemma s_back_code [code]:
  "s_back =
     s_settled\<lparr>now := 2100, previewController := \<lparr>timeout = None, hash = hash0\<rparr>,
               next_timer := 3\<rparr>"
  by code_simp

lemma s_real_code [code]:
  "s_real =
     s_fired\<lparr>messages := [pum0, hello_late], messagesRef := [pum0, hello_late],
             previewController := \<lparr>timeout = None, hash = hash0\<rparr>,
             inflight := [(0, PreviewAwaitToken closure0 agentA pum0),
                          (1, TestAwaitToken agentA ''hello'')],
             next_task := 2, sent := [TokenRequest (Some 7), TokenRequest (Some 7)]\<rparr>"
  by code_simp

lemma s_manual_code [code]:
  "s_manual =
     s_armed\<lparr>messages := [hello_early], messagesRef := [hello_early],
             previewController := \<lparr>timeout = None, hash = []\<rparr>, timers := [],
             inflight := [(0, TestAwaitToken agentA ''hello'')], next_task := 1,
             sent := [TokenRequest (Some 7)]\<rparr>"
  by code_simp

lemma s_race_code [code]:
  "s_race =
     s_inflight\<lparr>messages := [pum0, hello_late], messagesRef := [pum0, hello_late],
                inflight := [(1, PreviewAwaitChat pum0), (2, TestAwaitChat)], next_task := 3,
                sent := [TokenRequest (Some 7), request0,
                         ChatRequest ''pub7'' ''tok'' ''hello'' (Builder 7) None]\<rparr>"
  by code_simp

lemma s_switched_code [code]:
  "s_switched =
     s_settled\<lparr>currentStep := 1, agentId := Some 8, createdAgent := Some agentB,
               previewController := \<lparr>timeout = None, hash = []\<rparr>\<rparr>"
  by code_simp

text \<open>The states of the session as runs of events.\<close>

lemma session_traces:
  "s_real = run slider_json (init 1000 cfg0)
     [SetAgentId (Some 7), AgentLoaded (Some agentA), SetCurrentStep 3, Elapse 800, TimerFire 1,
      SetInput ''hello'', SendTestMessage]"
  "s_settled = run slider_json (init 1000 cfg0)
     [SetAgentId (Some 7), AgentLoaded (Some agentA), SetCurrentStep 3, Elapse 800, TimerFire 1,
      TokenResponse 0 (Some (''tok'', 3600)), ChatResponse 1 (Some ''Hello'')]"
  "s_rearmed = run slider_json s_settled [ConfigChange cfg1]"
  "s_back = run slider_json s_settled [ConfigChange cfg1, Elapse 300, ConfigChange cfg0]"
  by (simp_all only: s_real_def s_fired_def s_armed_def s_settled_def s_inflight_def
      s_rearmed_def s_back_def run_def foldl.simps)

section \<open>Facts about message ids\<close>

lemma is_preview_request_preview [simp]: "is_preview_request (preview_request c ag tok)"
  by (simp add: preview_request_def)

lemma startsWith_append [simp]: "startsWith (p @ s) p"
  by (simp add: startsWith_def)

lemma startsWith_preview_user [simp]: "startsWith (''preview-user-'' @ x) ''preview-''"
  by (simp add: startsWith_def)

lemma startsWith_preview_assistant [simp]: "startsWith (''preview-assistant-'' @ x) ''preview-''"
  by (simp add: startsWith_def)

lemma startsWith_preview_error [simp]: "startsWith (''preview-error-'' @ x) ''preview-''"
  by (simp add: startsWith_def)

lemma digit_char_not_p: "d < 10 \<Longrightarrow> digit_char d \<noteq> CHR ''p''"
proof -
  assume "d < 10"
  then have "d \<in> {0,1,2,3,4,5,6,7,8,9}" by auto
  then show ?thesis by (auto simp: digit_char_def)
qed

lemma hd_digits: "\<exists>d < 10. \<exists>r. digits n = digit_char d # r"
proof (induction n rule: digits.induct)
  case (1 n)
  show ?case
  proof (cases "n < 10")
    case True
    then show ?thesis by (subst digits.simps) auto
  next
    case False
    with 1 obtain d r where "d < 10" "digits (n div 10) = digit_char d # r" by auto
    with False show ?thesis by (subst digits.simps) auto
  qed
qed

lemma show_int_not_preview [simp]: "\<not> startsWith (show_int i) ''preview-''"
proof -
  obtain d r where d: "d < 10" "digits (nat i) = digit_char d # r"
    using hd_digits by blast
  show ?thesis
    using d digit_char_not_p [OF d(1)] by (auto simp: show_int_def startsWith_def)
qed

lemma has_real_user_Nil [simp]: "\<not> has_real_user []"
  by (simp add: has_real_user_def)

lemma has_real_user_Cons [simp]: "has_real_user (m # ms) = (is_real_user m \<or> has_real_user ms)"
  by (simp add: has_real_user_def)

lemma has_real_user_append [simp]:
  "has_real_user (xs @ ys) = (has_real_user xs \<or> has_real_user ys)"
  by (induction xs) auto

lemma startsWith_shorter: "startsWith s (p @ q) \<Longrightarrow> startsWith s p"
proof -
  assume "startsWith s (p @ q)"
  then have "take (length p) (take (length (p @ q)) s) = take (length p) (p @ q)"
    by (simp only: startsWith_def)
  then show ?thesis by (simp add: startsWith_def min_def)
qed

lemma preview_prompt_not_real: "is_preview_prompt m \<Longrightarrow> \<not> is_real_user m"
proof -
  assume "is_preview_prompt m"
  then have "startsWith (id_msg m) (''preview-'' @ ''user-'')"
    by (simp add: is_preview_prompt_def)
  then have "startsWith (id_msg m) ''preview-''"
    by (rule startsWith_shorter)
  then show ?thesis by (simp add: is_real_user_def)
qed

lemma previewUserMessage_prompt [simp]: "is_preview_prompt (previewUserMessage c t)"
  by (simp add: is_preview_prompt_def previewUserMessage_def startsWith_def)

lemma previewAssistantMessage_not_real [simp]: "\<not> is_real_user (previewAssistantMessage r t)"
  by (simp add: is_real_user_def previewAssistantMessage_def)

lemma previewErrorMessage_not_real [simp]: "\<not> is_real_user (previewErrorMessage t)"
  by (simp add: is_real_user_def previewErrorMessage_def)

lemma testErrorMessage_not_real [simp]: "\<not> is_real_user (testErrorMessage t)"
  by (simp add: is_real_user_def testErrorMessage_def)

section \<open>The invariant is kept\<close>

lemma controller_ok_held: "controller_ok num s \<Longrightarrow> held s"
  by (auto simp: controller_ok_def held_def split: list.splits)

lemma controller_ok_tasks_ok: "controller_ok num s \<Longrightarrow> tasks_ok s"
  by (simp add: controller_ok_def tasks_ok_def)

lemma controller_ok_ref: "controller_ok num s \<Longrightarrow> messagesRef s = messages s"
  by (simp add: controller_ok_def)

lemma held_clear_pending: "held s \<Longrightarrow> timers (clear_pending s) = []"
  by (auto simp: held_def clear_pending_def clearTimeout_def split: list.splits option.splits)

lemma held_cleanup: "held s \<Longrightarrow> timers (debounce_cleanup s) = []"
  by (auto simp: held_def debounce_cleanup_def clear_pending_def clearTimeout_def
      split: list.splits option.splits)

lemma clear_pending_frame [simp]:
  "messages (clear_pending s) = messages s"
  "messagesRef (clear_pending s) = messagesRef s"
  "inflight (clear_pending s) = inflight s"
  "sent (clear_pending s) = sent s"
  "cfg (clear_pending s) = cfg s"
  "tokens (clear_pending s) = tokens s"
  "now (clear_pending s) = now s"
  "input (clear_pending s) = input s"
  "currentStep (clear_pending s) = currentStep s"
  "agentId (clear_pending s) = agentId s"
  "createdAgent (clear_pending s) = createdAgent s"
  "hash (previewController (clear_pending s)) = hash (previewController s)"
  "next_timer (clear_pending s) = next_timer s"
  "next_task (clear_pending s) = next_task s"
  by (simp_all add: clear_pending_def clearTimeout_def split: option.splits)

lemma debounce_cleanup_frame [simp]:
  "messages (debounce_cleanup s) = messages s"
  "messagesRef (debounce_cleanup s) = messagesRef s"
  "inflight (debounce_cleanup s) = inflight s"
  "sent (debounce_cleanup s) = sent s"
  "cfg (debounce_cleanup s) = cfg s"
  "tokens (debounce_cleanup s) = tokens s"
  "now (debounce_cleanup s) = now s"
  "input (debounce_cleanup s) = input s"
  "currentStep (debounce_cleanup s) = currentStep s"
  "agentId (debounce_cleanup s) = agentId s"
  "createdAgent (debounce_cleanup s) = createdAgent s"
  "hash (previewController (debounce_cleanup s)) = hash (previewController s)"
  "next_timer (debounce_cleanup s) = next_timer s"
  "next_task (debounce_cleanup s) = next_task s"
  by (simp_all add: debounce_cleanup_def)

lemma debounce_effect_frame [simp]:
  "messages (debounce_effect num s) = messages s"
  "messagesRef (debounce_effect num s) = messagesRef s"
  "inflight (debounce_effect num s) = inflight s"
  "sent (debounce_effect num s) = sent s"
  "cfg (debounce_effect num s) = cfg s"
  "tokens (debounce_effect num s) = tokens s"
  "now (debounce_effect num s) = now s"
  "input (debounce_effect num s) = input s"
  "currentStep (debounce_effect num s) = currentStep s"
  "agentId (debounce_effect num s) = agentId s"
  "createdAgent (debounce_effect num s) = createdAgent s"
  "next_task (debounce_effect num s) = next_task s"
  by (simp_all add: debounce_effect_def set_hash_def clearTimeout_def Let_def split: option.splits)

lemma rerun_debounce_frame [simp]:
  "messages (rerun_debounce num s) = messages s"
  "messagesRef (rerun_debounce num s) = messagesRef s"
  "inflight (rerun_debounce num s) = inflight s"
  "sent (rerun_debounce num s) = sent s"
  "cfg (rerun_debounce num s) = cfg s"
  "tokens (rerun_debounce num s) = tokens s"
  "now (rerun_debounce num s) = now s"
  "input (rerun_debounce num s) = input s"
  "currentStep (rerun_debounce num s) = currentStep s"
  "agentId (rerun_debounce num s) = agentId s"
  "createdAgent (rerun_debounce num s) = createdAgent s"
  "next_task (rerun_debounce num s) = next_task s"
  by (simp_all add: rerun_debounce_def)

lemma debounce_effect_ok:
  assumes "timers s = []" "messagesRef s = messages s" "tasks_ok s"
  shows "controller_ok num (debounce_effect num s)"
  using assms
  by (simp add: controller_ok_def tasks_ok_def debounce_effect_def set_hash_def clear_pending_def
      clearTimeout_def closure_of_def agent_ready_def Let_def split: option.splits)

lemma rerun_debounce_ok:
  assumes "held s" "messagesRef s = messages s" "tasks_ok s"
  shows "controller_ok num (rerun_debounce num s)"
  unfolding rerun_debounce_def
  by (rule debounce_effect_ok) (use assms in \<open>simp_all add: held_cleanup tasks_ok_def\<close>)

lemma setMessages_frame [simp]:
  "messages (setMessages ms s) = ms"
  "messagesRef (setMessages ms s) = ms"
  "inflight (setMessages ms s) = inflight s"
  "sent (setMessages ms s) = sent s"
  "cfg (setMessages ms s) = cfg s"
  "tokens (setMessages ms s) = tokens s"
  "now (setMessages ms s) = now s"
  "input (setMessages ms s) = input s"
  "currentStep (setMessages ms s) = currentStep s"
  "agentId (setMessages ms s) = agentId s"
  "createdAgent (setMessages ms s) = createdAgent s"
  "hash (previewController (setMessages ms s)) = hash (previewController s)"
  "has_cleanup (setMessages ms s) = has_cleanup s"
  "next_timer (setMessages ms s) = next_timer s"
  "next_task (setMessages ms s) = next_task s"
  by (simp_all add: setMessages_def cancel_on_real_user_def sync_messagesRef_def
      clear_pending_def clearTimeout_def split: option.splits)

lemma setMessages_quiet:
  "\<not> has_real_user ms \<Longrightarrow> timers (setMessages ms s) = timers s"
  "\<not> has_real_user ms \<Longrightarrow> previewController (setMessages ms s) = previewController s"
  by (simp_all add: setMessages_def cancel_on_real_user_def sync_messagesRef_def)

lemma setMessages_real:
  "has_real_user ms \<Longrightarrow> held s \<Longrightarrow> timers (setMessages ms s) = []"
  by (auto simp: setMessages_def cancel_on_real_user_def sync_messagesRef_def held_def
      clear_pending_def clearTimeout_def split: option.splits list.splits)

lemma setMessages_ok_quiet:
  assumes "controller_ok num s" "\<not> has_real_user ms"
  shows "controller_ok num (setMessages ms s)"
  using assms
  by (auto simp: controller_ok_def setMessages_quiet closure_of_def split: list.splits)

lemma setMessages_ok_real:
  assumes "controller_ok num s" "has_real_user ms"
  shows "controller_ok num (setMessages ms s)"
proof -
  have "timers (setMessages ms s) = []"
    using assms controller_ok_held setMessages_real by blast
  then show ?thesis
    using assms(1) by (simp add: controller_ok_def)
qed

lemma setMessages_ok: "controller_ok num s \<Longrightarrow> controller_ok num (setMessages ms s)"
  using setMessages_ok_quiet setMessages_ok_real by blast

lemma send_ok [simp]: "controller_ok num (send r s) = controller_ok num s"
  by (auto simp: controller_ok_def send_def closure_of_def split: list.splits)

lemma suspend_ok: "controller_ok num s \<Longrightarrow> task_ok k \<Longrightarrow> controller_ok num (suspend k s)"
  by (auto simp: controller_ok_def suspend_def closure_of_def split: list.splits)

lemma resume_ok: "controller_ok num s \<Longrightarrow> controller_ok num (resume k s)"
  by (auto simp: controller_ok_def resume_def closure_of_def list_all_iff split: list.splits)

lemma input_ok [simp]: "controller_ok num (s\<lparr>input := v\<rparr>) = controller_ok num s"
  by (auto simp: controller_ok_def closure_of_def split: list.splits)

lemma now_ok [simp]: "controller_ok num (s\<lparr>now := v\<rparr>) = controller_ok num s"
  by (auto simp: controller_ok_def closure_of_def split: list.splits)

lemma preview_catch_ok:
  "controller_ok num s \<Longrightarrow> is_preview_prompt pum \<Longrightarrow> controller_ok num (preview_catch pum s)"
  by (simp add: preview_catch_def setMessages_ok_quiet preview_prompt_not_real)

lemma preview_done_ok:
  "controller_ok num s \<Longrightarrow> is_preview_prompt pum \<Longrightarrow> controller_ok num (preview_done pum r s)"
  by (simp add: preview_done_def setMessages_ok_quiet preview_prompt_not_real)

lemma preview_send_ok:
  "controller_ok num s \<Longrightarrow> is_preview_prompt pum \<Longrightarrow> controller_ok num (preview_send c ag tok pum s)"
  by (simp add: preview_send_def suspend_ok)

lemma test_catch_ok: "controller_ok num s \<Longrightarrow> controller_ok num (test_catch s)"
  by (simp add: test_catch_def setMessages_ok)

lemma test_done_ok: "controller_ok num s \<Longrightarrow> controller_ok num (test_done r s)"
  by (simp add: test_done_def setMessages_ok)

lemma test_send_ok: "controller_ok num s \<Longrightarrow> controller_ok num (test_send ag tok txt s)"
  by (simp add: test_send_def suspend_ok)

lemma runAutoPreview_ok:
  assumes "controller_ok num s"
  shows "controller_ok num (runAutoPreview c s)"
proof (cases "c_createdAgent c")
  case None
  then show ?thesis using assms by (simp add: runAutoPreview_def)
next
  case (Some ag)
  let ?pum = "previewUserMessage c (now s)"
  have 1: "controller_ok num (setMessages [?pum] s)"
    using assms by (simp add: setMessages_ok_quiet preview_prompt_not_real)
  have 2: "task_ok (PreviewAwaitToken c ag ?pum)"
    by (simp add: previewUserMessage_def is_preview_prompt_def startsWith_def)
  show ?thesis
    using assms Some 1 2
    by (simp add: runAutoPreview_def Let_def preview_catch_ok preview_send_ok suspend_ok
        split: ensure_outcome.splits)
qed

lemma sendTestMessage_ok:
  assumes "controller_ok num s"
  shows "controller_ok num (sendTestMessage s)"
proof -
  have "controller_ok num ((setMessages ms s)\<lparr>input := []\<rparr>)" for ms
    using assms by (simp add: setMessages_ok)
  then show ?thesis
    using assms
    by (simp add: sendTestMessage_def Let_def test_catch_ok test_send_ok suspend_ok
        split: option.splits ensure_outcome.splits)
qed

lemma fire_timer_ok:
  assumes "controller_ok num s"
  shows "controller_ok num (fire_timer h s)"
proof (cases "find (\<lambda>t. handle t = h) (timers s)")
  case None
  then show ?thesis using assms by (simp add: fire_timer_def)
next
  case (Some t)
  then obtain "timers s = [t]" "handle t = h"
    using assms by (auto simp: controller_ok_def split: list.splits if_splits)
  then have "controller_ok num (set_hash (t_hash t) (clearTimeout h s))"
    using assms by (simp add: controller_ok_def set_hash_def clearTimeout_def)
  then show ?thesis
    using assms Some by (simp add: fire_timer_def runAutoPreview_ok)
qed

lemma held_update [simp]:
  "held (s\<lparr>cfg := c\<rparr>) = held s"
  "held (s\<lparr>currentStep := n\<rparr>) = held s"
  "held (s\<lparr>agentId := a\<rparr>) = held s"
  "held (s\<lparr>createdAgent := ag\<rparr>) = held s"
  "held (s\<lparr>tokens := tc\<rparr>) = held s"
  by (simp_all add: held_def split: list.splits)

lemma tasks_ok_update [simp]:
  "tasks_ok (s\<lparr>cfg := c\<rparr>) = tasks_ok s"
  "tasks_ok (s\<lparr>currentStep := n\<rparr>) = tasks_ok s"
  "tasks_ok (s\<lparr>agentId := a\<rparr>) = tasks_ok s"
  "tasks_ok (s\<lparr>createdAgent := ag\<rparr>) = tasks_ok s"
  "tasks_ok (s\<lparr>tokens := tc\<rparr>) = tasks_ok s"
  by (simp_all add: tasks_ok_def)

lemma set_tokens_ok: "controller_ok num s \<Longrightarrow> controller_ok num (set_tokens num tc s)"
  by (simp add: set_tokens_def rerun_debounce_ok controller_ok_held controller_ok_tasks_ok controller_ok_ref)

lemma on_token_response_ok:
  assumes "controller_ok num s"
  shows "controller_ok num (on_token_response num k resp s)"
proof (cases "map_of (inflight s) k")
  case None
  then show ?thesis using assms by (simp add: on_token_response_def)
next
  case (Some tk)
  then have "(k, tk) \<in> set (inflight s)" by (rule map_of_SomeD)
  then have tk: "task_ok tk"
    using assms by (auto simp: controller_ok_def list_all_iff)
  show ?thesis
    using assms Some tk
    by (cases tk; cases resp)
       (simp_all add: on_token_response_def preview_catch_ok preview_send_ok test_catch_ok
          test_send_ok set_tokens_ok resume_ok)
qed

lemma on_chat_response_ok:
  assumes "controller_ok num s"
  shows "controller_ok num (on_chat_response k resp s)"
proof (cases "map_of (inflight s) k")
  case None
  then show ?thesis using assms by (simp add: on_chat_response_def)
next
  case (Some tk)
  then have "(k, tk) \<in> set (inflight s)" by (rule map_of_SomeD)
  then have tk: "task_ok tk"
    using assms by (auto simp: controller_ok_def list_all_iff)
  show ?thesis
    using assms Some tk
    by (cases tk; cases resp)
       (simp_all add: on_chat_response_def preview_catch_ok preview_done_ok test_catch_ok
          test_done_ok resume_ok)
qed

lemma step_ok: "controller_ok num s \<Longrightarrow> controller_ok num (step num s e)"
  by (cases e)
     (simp_all add: rerun_debounce_ok controller_ok_held controller_ok_tasks_ok controller_ok_ref
        sendTestMessage_ok fire_timer_ok on_token_response_ok on_chat_response_ok)

lemma run_ok: "controller_ok num s \<Longrightarrow> controller_ok num (run num s es)"
  unfolding run_def by (induction es arbitrary: s) (simp_all add: step_ok)

lemma init_ok: "controller_ok num (init t c)"
  by (simp add: controller_ok_def init_def)

lemma trim_spaces: "\<forall>c \<in> set v. is_space c \<Longrightarrow> trim v = []"
proof -
  assume "\<forall>c \<in> set v. is_space c"
  then have e: "dropWhile is_space v = []" by simp
  show ?thesis unfolding trim_def e by simp
qed

lemma sort_mset_eq: "mset xs = mset ys \<Longrightarrow> sort xs = sort (ys :: int list)"
proof -
  assume a: "mset xs = mset ys"
  have "mset (sort ys) = mset xs" using a by simp
  then show ?thesis by (rule properties_for_sort) simp
qed

lemma docHash_reorder:
  assumes "mset ds = mset ds'"
  shows "docHash ds = docHash ds'"
  unfolding docHash_def by (simp only: sort_mset_eq [OF assms])

lemma config_hash_docs:
  assumes "mset ds = mset ds'"
  shows "config_hash num (c\<lparr>selectedDocs := ds\<rparr>) = config_hash num (c\<lparr>selectedDocs := ds'\<rparr>)"
  unfolding config_hash_def by (simp add: docHash_reorder [OF assms])

lemma debounce_effect_same_hash:
  assumes "hash (previewController s) = config_hash num (cfg s)" "timers s = []"
  shows "timers (debounce_effect num s) = []" "next_timer (debounce_effect num s) = next_timer s"
  using assms
  by (simp_all add: debounce_effect_def set_hash_def clear_pending_def clearTimeout_def
      split: option.splits)

lemma scenario_ok: "controller_ok slider_json s_armed" "controller_ok slider_json s_fired"
  "controller_ok slider_json s_real"
  unfolding s_armed_def s_fired_def s_real_def by (intro run_ok init_ok)+

section \<open>The claims\<close>




text \<open>
  C10.  When the input consists of white space only (the empty input included) or the agent
  record is not loaded, sending a test message changes nothing: the state after the event
  is the state before it, so the log, the input field, the requests sent and the suspended
  calls are all as they were.
\<close>

theorem sendTestMessage_guard:
  assumes "(\<forall>c \<in> set (input s). is_space c) \<or> createdAgent s = None"
  shows "step num s SendTestMessage = s"
proof (cases "createdAgent s")
  case None
  then show ?thesis by (simp add: sendTestMessage_def)
next
  case (Some ag)
  with assms have "\<forall>c \<in> set (input s). is_space c" by simp
  then have "trim (input s) = []" by (rule trim_spaces)
  with Some show ?thesis by (simp add: sendTestMessage_def)
qed

text \<open>
  In the concrete session the agent is loaded; with two blanks in the input field the send
  button does nothing.
\<close>

theorem sendTestMessage_guard_witness:
  "((\<forall>c \<in> set (input (s_fired\<lparr>input := ''  ''\<rparr>)). is_space c)
      \<or> createdAgent (s_fired\<lparr>input := ''  ''\<rparr>) = None) \<and>
   step slider_json (s_fired\<lparr>input := ''  ''\<rparr>) SendTestMessage = s_fired\<lparr>input := ''  ''\<rparr>"
proof -
  have h: "(\<forall>c \<in> set (input (s_fired\<lparr>input := ''  ''\<rparr>)). is_space c)
      \<or> createdAgent (s_fired\<lparr>input := ''  ''\<rparr>) = None"
    by (simp add: is_space_def)
  show ?thesis
    using h sendTestMessage_guard [OF h, of slider_json] by simp
qed

text \<open>
  C7.  Two snapshots that differ only in the order of the selected document ids have the
  same hash.  Consequently, when such a snapshot's hash is the recorded one, the
  configuration change arms no timer: afterwards no timer is pending, no timer handle has
  been allocated and nothing has been sent.
\<close>

theorem config_hash_ignores_doc_order:
  assumes "mset ds = mset (selectedDocs c)"
  shows "config_hash num (c\<lparr>selectedDocs := ds\<rparr>) = config_hash num c \<and>
         (controller_ok num s \<longrightarrow> hash (previewController s) = config_hash num c \<longrightarrow>
            timers (step num s (ConfigChange (c\<lparr>selectedDocs := ds\<rparr>))) = [] \<and>
            next_timer (step num s (ConfigChange (c\<lparr>selectedDocs := ds\<rparr>))) = next_timer s \<and>
            sent (step num s (ConfigChange (c\<lparr>selectedDocs := ds\<rparr>))) = sent s)"
proof -
  have eq: "config_hash num (c\<lparr>selectedDocs := ds\<rparr>) = config_hash num c"
    using config_hash_docs [OF assms, of num c] by simp
  moreover
  {
    assume ok: "controller_ok num s" and h: "hash (previewController s) = config_hash num c"
    let ?s1 = "debounce_cleanup (s\<lparr>cfg := c\<lparr>selectedDocs := ds\<rparr>\<rparr>)"
    have "held (s\<lparr>cfg := c\<lparr>selectedDocs := ds\<rparr>\<rparr>)"
      using ok by (simp add: controller_ok_held)
    then have t: "timers ?s1 = []" by (rule held_cleanup)
    have "hash (previewController ?s1) = config_hash num (cfg ?s1)"
      using h eq by simp
    from debounce_effect_same_hash [OF this t]
    have "timers (step num s (ConfigChange (c\<lparr>selectedDocs := ds\<rparr>))) = [] \<and>
          next_timer (step num s (ConfigChange (c\<lparr>selectedDocs := ds\<rparr>))) = next_timer s \<and>
          sent (step num s (ConfigChange (c\<lparr>selectedDocs := ds\<rparr>))) = sent s"
      by (simp add: rerun_debounce_def)
  }
  ultimately show ?thesis by blast
qed

text \<open>
  In the concrete session the documents were selected as 12, 3 and that snapshot's hash was
  recorded when the timer fired; selecting them as 3, 12 gives the same hash and arms
  nothing.
\<close>

theorem config_hash_ignores_doc_order_witness:
  "mset [3, 12] = mset (selectedDocs cfg0) \<and>
   controller_ok slider_json s_fired \<and>
   hash (previewController s_fired) = config_hash slider_json cfg0 \<and>
   config_hash slider_json (cfg0\<lparr>selectedDocs := [3, 12]\<rparr>) = config_hash slider_json cfg0 \<and>
   timers (step slider_json s_fired (ConfigChange (cfg0\<lparr>selectedDocs := [3, 12]\<rparr>))) = []"
proof -
  have m: "mset [3, 12] = mset (selectedDocs cfg0)"
    by (simp add: cfg0_def)
  have h: "hash (previewController s_fired) = config_hash slider_json cfg0"
    by code_simp
  show ?thesis
    using m h scenario_ok(2) config_hash_ignores_doc_order [OF m, of slider_json s_fired]
    by simp
qed

lemma small_frame [simp]:
  "messages (send r s) = messages s" "messagesRef (send r s) = messagesRef s"
  "timers (send r s) = timers s" "previewController (send r s) = previewController s"
  "inflight (send r s) = inflight s" "sent (send r s) = sent s @ [r]"
  "messages (suspend tk s) = messages s" "messagesRef (suspend tk s) = messagesRef s"
  "timers (suspend tk s) = timers s" "previewController (suspend tk s) = previewController s"
  "inflight (suspend tk s) = inflight s @ [(next_task s, tk)]" "sent (suspend tk s) = sent s"
  "messages (resume k s) = messages s" "messagesRef (resume k s) = messagesRef s"
  "timers (resume k s) = timers s" "previewController (resume k s) = previewController s"
  "inflight (resume k s) = filter (\<lambda>p. fst p \<noteq> k) (inflight s)" "sent (resume k s) = sent s"
  "now (send r s) = now s" "now (suspend tk s) = now s" "now (resume k s) = now s"
  by (simp_all add: send_def suspend_def resume_def)

lemma set_tokens_frame [simp]:
  "messages (set_tokens num tc s) = messages s"
  "messagesRef (set_tokens num tc s) = messagesRef s"
  "inflight (set_tokens num tc s) = inflight s"
  "sent (set_tokens num tc s) = sent s"
  "now (set_tokens num tc s) = now s"
  by (simp_all add: set_tokens_def)

lemma preview_send_frame [simp]:
  "messages (preview_send c ag tok pum s) = messages s"
  "timers (preview_send c ag tok pum s) = timers s"
  "previewController (preview_send c ag tok pum s) = previewController s"
  by (simp_all add: preview_send_def)

lemma test_send_frame [simp]:
  "messages (test_send ag tok txt s) = messages s"
  "timers (test_send ag tok txt s) = timers s"
  "previewController (test_send ag tok txt s) = previewController s"
  by (simp_all add: test_send_def)

lemma preview_catch_real [simp]: "has_real_user (messagesRef s) \<Longrightarrow> preview_catch pum s = s"
  by (simp add: preview_catch_def)

lemma preview_done_real [simp]: "has_real_user (messagesRef s) \<Longrightarrow> preview_done pum r s = s"
  by (simp add: preview_done_def)

lemma runAutoPreview_real [simp]: "has_real_user (messagesRef s) \<Longrightarrow> runAutoPreview c s = s"
  by (simp add: runAutoPreview_def split: option.splits)


lemma preview_done_messages:
  "\<not> has_real_user (messagesRef s) \<Longrightarrow>
   messages (preview_done pum r s) = [pum, previewAssistantMessage r (now s)]"
  by (simp add: preview_done_def)

lemma runAutoPreview_quiet:
  assumes "\<not> has_real_user (messages s)"
  shows "\<not> has_real_user (messages (runAutoPreview c s))"
proof (cases "c_createdAgent c")
  case None
  then show ?thesis using assms by (simp add: runAutoPreview_def)
next
  case (Some ag)
  have p: "\<not> is_real_user (previewUserMessage c (now s))"
    by (simp add: preview_prompt_not_real)
  show ?thesis
    using assms Some p
    by (simp add: runAutoPreview_def Let_def preview_catch_def split: ensure_outcome.splits)
qed

lemma fire_timer_quiet:
  "\<not> has_real_user (messages s) \<Longrightarrow> \<not> has_real_user (messages (fire_timer h s))"
  by (simp add: fire_timer_def runAutoPreview_quiet set_hash_def clearTimeout_def
      split: option.splits)

lemma task_of_inflight:
  "controller_ok num s \<Longrightarrow> map_of (inflight s) k = Some tk \<Longrightarrow> task_ok tk"
proof -
  assume ok: "controller_ok num s" and m: "map_of (inflight s) k = Some tk"
  from m have "(k, tk) \<in> set (inflight s)" by (rule map_of_SomeD)
  moreover from ok have "\<forall>p \<in> set (inflight s). task_ok (snd p)"
    by (simp add: controller_ok_def list_all_iff)
  ultimately show ?thesis by fastforce
qed

lemma preview_catch_quiet:
  "is_preview_prompt pum \<Longrightarrow> \<not> has_real_user (messages s) \<Longrightarrow>
   \<not> has_real_user (messages (preview_catch pum s))"
  by (simp add: preview_catch_def preview_prompt_not_real)

lemma preview_done_quiet:
  "is_preview_prompt pum \<Longrightarrow> \<not> has_real_user (messages s) \<Longrightarrow>
   \<not> has_real_user (messages (preview_done pum r s))"
  by (simp add: preview_done_def preview_prompt_not_real)

lemma test_catch_quiet:
  "\<not> has_real_user (messages s) \<Longrightarrow> \<not> has_real_user (messages (test_catch s))"
  by (simp add: test_catch_def)

lemma test_done_quiet:
  "\<not> has_real_user (messages s) \<Longrightarrow> \<not> has_real_user (messages (test_done r s))"
  by (simp add: test_done_def is_real_user_def)

lemma on_token_response_quiet:
  assumes "controller_ok num s" "\<not> has_real_user (messages s)"
  shows "\<not> has_real_user (messages (on_token_response num k resp s))"
proof (cases "map_of (inflight s) k")
  case None
  then show ?thesis using assms by (simp add: on_token_response_def)
next
  case (Some tk)
  with assms(1) have "task_ok tk" by (rule task_of_inflight)
  then show ?thesis
    using assms(2) Some
    by (cases tk; cases resp)
       (simp_all add: on_token_response_def preview_catch_quiet test_catch_quiet)
qed

lemma on_chat_response_quiet:
  assumes "controller_ok num s" "\<not> has_real_user (messages s)"
  shows "\<not> has_real_user (messages (on_chat_response k resp s))"
proof (cases "map_of (inflight s) k")
  case None
  then show ?thesis using assms by (simp add: on_chat_response_def)
next
  case (Some tk)
  with assms(1) have "task_ok tk" by (rule task_of_inflight)
  then show ?thesis
    using assms(2) Some
    by (cases tk; cases resp)
       (simp_all add: on_chat_response_def preview_catch_quiet preview_done_quiet
          test_catch_quiet test_done_quiet)
qed

lemma step_quiet:
  assumes "controller_ok num s" "\<not> has_real_user (messages s)" "e \<noteq> SendTestMessage"
  shows "\<not> has_real_user (messages (step num s e))"
  using assms
  by (cases e) (simp_all add: fire_timer_quiet on_token_response_quiet on_chat_response_quiet)

text \<open>
  C3, as stated, fails.  A call made while the agent is not loaded finds no usable cached
  token, yet it sends nothing to the token issuer and returns no token: it throws.
\<close>

theorem ensure_token_not_ready_counterexample:
  "\<not> cache_usable no_cache 1000 \<and>
   ensureAgentSessionToken (agent_ready None None) no_cache 1000 (Some (''tok'', 3600)) 1200
     = (Inl AgentNotReady, no_cache, 0) \<and>
   ensureAgentSessionToken (agent_ready None None) no_cache 1000 (Some (''tok'', 3600)) 1200
     \<noteq> (Inr ''tok'', ensure_finish (''tok'', 3600) 1200, 1)"
  by (simp add: cache_usable_def no_cache_def ensureAgentSessionToken_def ensure_start_def
      agent_ready_def)

text \<open>
  C3, amended.  While the agent is loaded: when the cache passes the test (a non-empty token,
  a non-zero expiry, and expiry minus 5000 ms strictly after the clock), the cached token is
  returned, the cache is unchanged and no request is sent; otherwise exactly one request goes
  to the token issuer, and when it answers, the cache holds the returned token with the
  expiry set to the clock at the answer plus \<open>expires_in * 1000\<close> and the new token is
  returned, while a failed request leaves the cache unchanged and the error propagates.  A
  second call inside the window of a token just issued sends no request.  While the agent is
  not loaded the call throws, sends nothing and leaves the cache unchanged.
\<close>

theorem ensure_token_when_ready:
  "(ready \<longrightarrow>
      (cache_usable c t \<longrightarrow>
         (\<exists>tok. sessionToken c = Some tok \<and>
            ensureAgentSessionToken ready c t resp t' = (Inr tok, c, 0))) \<and>
      (\<not> cache_usable c t \<longrightarrow>
         ensureAgentSessionToken ready c t resp t' =
           (case resp of
              None \<Rightarrow> (Inl RequestFailed, c, 1)
            | Some r \<Rightarrow>
                (Inr (fst r),
                 \<lparr>sessionToken = Some (fst r), sessionTokenExpiry = Some (t' + snd r * 1000)\<rparr>,
                 1))) \<and>
      (tok' \<noteq> [] \<longrightarrow> t' + ex' * 1000 \<noteq> 0 \<longrightarrow> t' + ex' * 1000 - 5000 > t'' \<longrightarrow>
         ensureAgentSessionToken ready (ensure_finish (tok', ex') t') t'' resp' t''' =
           (Inr tok', ensure_finish (tok', ex') t', 0))) \<and>
   (\<not> ready \<longrightarrow> ensureAgentSessionToken ready c t resp t' = (Inl AgentNotReady, c, 0))"
  by (auto simp: cache_usable_def ensureAgentSessionToken_def ensure_start_def ensure_finish_def
      safetyWindow_def split: option.splits)

text \<open>
  With the usable token of the chat page the call returns it without a request; with an
  empty cache one request is sent and its answer stored; the next call reuses it.
\<close>

theorem ensure_token_when_ready_witness:
  "cache_usable (cp_tokens chat1) 1000 \<and> \<not> cache_usable no_cache 1000 \<and>
   ensureAgentSessionToken True (cp_tokens chat1) 1000 None 1200 = (Inr ''tok'', cp_tokens chat1, 0) \<and>
   ensureAgentSessionToken True no_cache 1000 (Some (''new'', 3600)) 1200 =
     (Inr ''new'', \<lparr>sessionToken = Some ''new'', sessionTokenExpiry = Some 3601200\<rparr>, 1) \<and>
   ensureAgentSessionToken True (ensure_finish (''new'', 3600) 1200) 2000 None 2100 =
     (Inr ''new'', ensure_finish (''new'', 3600) 1200, 0) \<and>
   ensureAgentSessionToken False (cp_tokens chat1) 1000 None 1200 =
     (Inl AgentNotReady, cp_tokens chat1, 0)"
proof -
  have u: "cache_usable (cp_tokens chat1) 1000"
    by (simp add: cache_usable_def chat1_def)
  have n: "\<not> cache_usable no_cache 1000"
    by (simp add: cache_usable_def no_cache_def)
  show ?thesis
    using u n
      ensure_token_when_ready [of True "cp_tokens chat1" 1000 None 1200 "''new''" 3600 2000 None 2100]
      ensure_token_when_ready [of True no_cache 1000 "Some (''new'', 3600)" 1200 "''new''" 3600 2000 None 2100]
      ensure_token_when_ready [of False "cp_tokens chat1" 1000 None 1200 "''new''" 3600 2000 None 2100]
    by (simp add: chat1_def)
qed

text \<open>
  C9.  The three messages the automatic preview creates have ids that start with
  \<open>preview-\<close>, so no log the preview writes has real user activity.  In the running
  controller every event other than the user's own send keeps the log free of real user
  activity: timers firing and answers arriving never establish it.
\<close>

theorem preview_ids_are_tagged:
  "startsWith (id_msg (previewUserMessage c t)) ''preview-'' \<and>
   startsWith (id_msg (previewAssistantMessage r t)) ''preview-'' \<and>
   startsWith (id_msg (previewErrorMessage t)) ''preview-'' \<and>
   \<not> has_real_user [previewUserMessage c t] \<and>
   \<not> has_real_user [previewUserMessage c t, previewAssistantMessage r t'] \<and>
   \<not> has_real_user [previewUserMessage c t, previewErrorMessage t'] \<and>
   (controller_ok num s \<longrightarrow> \<not> has_real_user (messages s) \<longrightarrow> e \<noteq> SendTestMessage \<longrightarrow>
      \<not> has_real_user (messages (step num s e)))"
  by (simp add: step_quiet preview_prompt_not_real)
     (simp add: previewUserMessage_def previewAssistantMessage_def previewErrorMessage_def
        startsWith_def)

text \<open>
  In the concrete session the timer is due at 1800; firing it writes the synthetic prompt
  and the log still has no real user activity.
\<close>

theorem preview_ids_are_tagged_witness:
  "controller_ok slider_json s_due \<and> \<not> has_real_user (messages s_due) \<and>
   TimerFire 1 \<noteq> (SendTestMessage :: nat event) \<and>
   messages (step slider_json s_due (TimerFire 1)) = [previewUserMessage (closure_of s_due) 1800] \<and>
   \<not> has_real_user (messages (step slider_json s_due (TimerFire 1)))"
proof -
  have ok: "controller_ok slider_json s_due"
    unfolding s_due_def using scenario_ok(1) by (rule run_ok)
  have q: "\<not> has_real_user (messages s_due)"
    by code_simp
  have m: "messages (step slider_json s_due (TimerFire 1)) = [previewUserMessage (closure_of s_due) 1800]"
    by code_simp
  show ?thesis
    using ok q m preview_ids_are_tagged [of _ _ _ _ slider_json s_due "TimerFire 1"]
    by simp
qed

section \<open>After a real user message\<close>

lemma ok_real_no_timer: "controller_ok num s \<Longrightarrow> has_real_user (messages s) \<Longrightarrow> timers s = []"
  by (auto simp: controller_ok_def split: list.splits)

lemma grows_untagged_iff:
  "grows_untagged ms ms' \<longleftrightarrow> (\<exists>ext. ms' = ms @ ext \<and> untagged ext)"
proof
  assume "grows_untagged ms ms'"
  then have "ms' = ms @ drop (length ms) ms' \<and> untagged (drop (length ms) ms')"
    unfolding grows_untagged_def by (metis append_take_drop_id)
  then show "\<exists>ext. ms' = ms @ ext \<and> untagged ext" by blast
next
  assume "\<exists>ext. ms' = ms @ ext \<and> untagged ext"
  then show "grows_untagged ms ms'"
    by (auto simp: grows_untagged_def)
qed

lemma grows_refl [simp]: "grows_untagged ms ms"
  by (simp add: grows_untagged_def untagged_def)

lemma grows_trans: "grows_untagged a b \<Longrightarrow> grows_untagged b c \<Longrightarrow> grows_untagged a c"
  by (auto simp: grows_untagged_iff untagged_def)

lemma grows_one: "\<not> startsWith (id_msg m) ''preview-'' \<Longrightarrow> grows_untagged ms (ms @ [m])"
  by (simp add: grows_untagged_iff untagged_def)

lemma grows_real: "grows_untagged ms ms' \<Longrightarrow> has_real_user ms \<Longrightarrow> has_real_user ms'"
  by (auto simp: grows_untagged_iff)

lemma test_catch_grows: "grows_untagged (messages s) (messages (test_catch s))"
  by (simp add: test_catch_def grows_one testErrorMessage_def)

lemma test_done_grows: "grows_untagged (messages s) (messages (test_done r s))"
  by (simp add: test_done_def grows_one)

lemma sendTestMessage_grows: "grows_untagged (messages s) (messages (sendTestMessage s))"
proof -
  have "grows_untagged ms (ms @ [u, testErrorMessage t])"
    if "\<not> startsWith (id_msg u) ''preview-''" for ms u t
    using that by (simp add: grows_untagged_iff untagged_def testErrorMessage_def)
  then show ?thesis
    by (simp add: sendTestMessage_def Let_def test_catch_def grows_one
        split: option.splits ensure_outcome.splits)
qed

lemma on_token_response_grows:
  assumes "has_real_user (messagesRef s)"
  shows "grows_untagged (messages s) (messages (on_token_response num k resp s))"
proof (cases "map_of (inflight s) k")
  case None
  then show ?thesis by (simp add: on_token_response_def)
next
  case (Some tk)
  have "grows_untagged (messages s) (messages (test_catch (resume k s)))"
    using test_catch_grows [of "resume k s"] by simp
  then show ?thesis
    using assms Some
    by (cases tk; cases resp) (simp_all add: on_token_response_def)
qed

lemma on_chat_response_grows:
  assumes "has_real_user (messagesRef s)"
  shows "grows_untagged (messages s) (messages (on_chat_response k resp s))"
proof (cases "map_of (inflight s) k")
  case None
  then show ?thesis by (simp add: on_chat_response_def)
next
  case (Some tk)
  have "grows_untagged (messages s) (messages (test_catch (resume k s)))"
    using test_catch_grows [of "resume k s"] by simp
  moreover have "grows_untagged (messages s) (messages (test_done r (resume k s)))" for r
    using test_done_grows [of "resume k s"] by simp
  ultimately show ?thesis
    using assms Some
    by (cases tk; cases resp) (simp_all add: on_chat_response_def)
qed

lemma fire_timer_idle: "timers s = [] \<Longrightarrow> fire_timer h s = s"
  by (simp add: fire_timer_def)

lemma step_grows:
  assumes "controller_ok num s" "has_real_user (messages s)"
  shows "grows_untagged (messages s) (messages (step num s e))"
proof -
  have r: "has_real_user (messagesRef s)"
    using assms by (simp add: controller_ok_ref)
  have t: "timers s = []"
    using assms by (rule ok_real_no_timer)
  show ?thesis
    using r t
    by (cases e)
       (simp_all add: sendTestMessage_grows on_token_response_grows on_chat_response_grows
          fire_timer_idle)
qed

lemma step_stays_real:
  "controller_ok num s \<Longrightarrow> has_real_user (messages s) \<Longrightarrow> has_real_user (messages (step num s e))"
  using grows_real step_grows by blast

lemma count_tasks_append [simp]:
  "count_tasks P (l @ [(n, tk)]) = count_tasks P l + (if P tk then 1 else 0)"
  by (simp add: count_tasks_def)

lemma count_tasks_resume_le:
  "count_tasks P (filter (\<lambda>p. fst p \<noteq> k) l) \<le> count_tasks P l"
  unfolding count_tasks_def by (induction l) auto

lemma count_tasks_resume_less:
  "map_of l k = Some tk \<Longrightarrow> P tk \<Longrightarrow>
   Suc (count_tasks P (filter (\<lambda>p. fst p \<noteq> k) l)) \<le> count_tasks P l"
proof (induction l)
  case Nil
  then show ?case by simp
next
  case (Cons a l)
  show ?case
  proof (cases "fst a = k")
    case True
    with Cons.prems have "snd a = tk" by (cases a) simp
    with True Cons.prems(2) show ?thesis
      using count_tasks_resume_le [of P k l] by (simp add: count_tasks_def)
  next
    case False
    with Cons.prems have "map_of l k = Some tk" by (cases a) (simp split: if_splits)
    with Cons.IH Cons.prems(2) False show ?thesis by (simp add: count_tasks_def)
  qed
qed

lemma counts_frame:
  "inflight s' = inflight s \<Longrightarrow> sent s' = sent s \<Longrightarrow>
   pending_rounds s' = pending_rounds s \<and> request_budget s' = request_budget s"
  by (simp add: pending_rounds_def request_budget_def preview_requests_def)

lemma setMessages_counts [simp]:
  "pending_rounds (setMessages ms s) = pending_rounds s"
  "request_budget (setMessages ms s) = request_budget s"
  using counts_frame [of "setMessages ms s" s] by simp_all

lemma update_counts [simp]:
  "pending_rounds (s\<lparr>input := v\<rparr>) = pending_rounds s"
  "request_budget (s\<lparr>input := v\<rparr>) = request_budget s"
  "pending_rounds (s\<lparr>cfg := c\<rparr>) = pending_rounds s"
  "request_budget (s\<lparr>cfg := c\<rparr>) = request_budget s"
  "pending_rounds (s\<lparr>currentStep := n\<rparr>) = pending_rounds s"
  "request_budget (s\<lparr>currentStep := n\<rparr>) = request_budget s"
  "pending_rounds (s\<lparr>agentId := a\<rparr>) = pending_rounds s"
  "request_budget (s\<lparr>agentId := a\<rparr>) = request_budget s"
  "pending_rounds (s\<lparr>createdAgent := ag\<rparr>) = pending_rounds s"
  "request_budget (s\<lparr>createdAgent := ag\<rparr>) = request_budget s"
  "pending_rounds (s\<lparr>now := t'\<rparr>) = pending_rounds s"
  "request_budget (s\<lparr>now := t'\<rparr>) = request_budget s"
  by (simp_all add: pending_rounds_def request_budget_def preview_requests_def)

lemma rerun_counts [simp]:
  "pending_rounds (rerun_debounce num s) = pending_rounds s"
  "request_budget (rerun_debounce num s) = request_budget s"
  using counts_frame [of "rerun_debounce num s" s] by simp_all

lemma set_tokens_counts [simp]:
  "pending_rounds (set_tokens num tc s) = pending_rounds s"
  "request_budget (set_tokens num tc s) = request_budget s"
  using counts_frame [of "set_tokens num tc s" s] by simp_all

lemma test_catch_counts [simp]:
  "pending_rounds (test_catch s) = pending_rounds s"
  "request_budget (test_catch s) = request_budget s"
  by (simp_all add: test_catch_def)

lemma test_done_counts [simp]:
  "pending_rounds (test_done r s) = pending_rounds s"
  "request_budget (test_done r s) = request_budget s"
  by (simp_all add: test_done_def)

lemma test_send_counts [simp]:
  "pending_rounds (test_send ag tok txt s) = pending_rounds s"
  "request_budget (test_send ag tok txt s) = request_budget s"
  by (simp_all add: test_send_def pending_rounds_def request_budget_def preview_requests_def)

lemma test_token_wait_counts [simp]:
  "pending_rounds (suspend (TestAwaitToken ag txt) (send (TokenRequest a) s)) = pending_rounds s"
  "request_budget (suspend (TestAwaitToken ag txt) (send (TokenRequest a) s)) = request_budget s"
  by (simp_all add: pending_rounds_def request_budget_def preview_requests_def)

lemma resume_counts:
  "pending_rounds (resume k s) \<le> pending_rounds s"
  "request_budget (resume k s) \<le> request_budget s"
  by (simp_all add: pending_rounds_def request_budget_def preview_requests_def
      count_tasks_resume_le)

lemma sendTestMessage_counts:
  "pending_rounds (sendTestMessage s) = pending_rounds s"
  "request_budget (sendTestMessage s) = request_budget s"
  by (simp_all add: sendTestMessage_def Let_def split: option.splits ensure_outcome.splits)

lemma preview_send_counts:
  assumes "map_of (inflight s) k = Some (PreviewAwaitToken c ag pum)"
  shows "pending_rounds (preview_send c' ag' tok pum' (set_tokens num tc (resume k s))) \<le> pending_rounds s"
    and "request_budget (preview_send c' ag' tok pum' (set_tokens num tc (resume k s))) \<le> request_budget s"
proof -
  have 1: "Suc (count_tasks is_preview_task (filter (\<lambda>p. fst p \<noteq> k) (inflight s)))
        \<le> count_tasks is_preview_task (inflight s)"
    using assms by (rule count_tasks_resume_less) simp
  have 2: "Suc (count_tasks awaits_token (filter (\<lambda>p. fst p \<noteq> k) (inflight s)))
        \<le> count_tasks awaits_token (inflight s)"
    using assms by (rule count_tasks_resume_less) simp
  show "pending_rounds (preview_send c' ag' tok pum' (set_tokens num tc (resume k s))) \<le> pending_rounds s"
    using 1 by (simp add: preview_send_def pending_rounds_def)
  show "request_budget (preview_send c' ag' tok pum' (set_tokens num tc (resume k s))) \<le> request_budget s"
    using 2 by (simp add: preview_send_def request_budget_def preview_requests_def)
qed

lemma on_token_response_counts:
  assumes "has_real_user (messagesRef s)"
  shows "pending_rounds (on_token_response num k resp s) \<le> pending_rounds s \<and>
         request_budget (on_token_response num k resp s) \<le> request_budget s"
proof (cases "map_of (inflight s) k")
  case None
  then show ?thesis by (simp add: on_token_response_def)
next
  case (Some tk)
  show ?thesis
  proof (cases tk)
    case (PreviewAwaitToken c ag pum)
    with Some assms show ?thesis
      by (cases resp) (simp_all add: on_token_response_def resume_counts preview_send_counts)
  next
    case (PreviewAwaitChat pum)
    with Some show ?thesis by (simp add: on_token_response_def)
  next
    case (TestAwaitToken ag body)
    with Some show ?thesis
      by (cases resp) (simp_all add: on_token_response_def resume_counts)
  next
    case TestAwaitChat
    with Some show ?thesis by (simp add: on_token_response_def)
  qed
qed

lemma on_chat_response_counts:
  assumes "has_real_user (messagesRef s)"
  shows "pending_rounds (on_chat_response k resp s) \<le> pending_rounds s \<and>
         request_budget (on_chat_response k resp s) \<le> request_budget s"
proof (cases "map_of (inflight s) k")
  case None
  then show ?thesis by (simp add: on_chat_response_def)
next
  case (Some tk)
  with assms show ?thesis
    by (cases tk; cases resp) (simp_all add: on_chat_response_def resume_counts)
qed

lemma step_counts:
  assumes "controller_ok num s" "has_real_user (messages s)"
  shows "pending_rounds (step num s e) \<le> pending_rounds s \<and>
         request_budget (step num s e) \<le> request_budget s"
proof -
  have r: "has_real_user (messagesRef s)"
    using assms by (simp add: controller_ok_ref)
  have t: "timers s = []"
    using assms by (rule ok_real_no_timer)
  show ?thesis
    using r t
    by (cases e)
       (simp_all add: sendTestMessage_counts on_token_response_counts
          on_chat_response_counts fire_timer_idle)
qed

lemma run_Nil [simp]: "run num s [] = s"
  by (simp add: run_def)

lemma run_Cons [simp]: "run num s (e # es) = run num (step num s e) es"
  by (simp add: run_def)

lemma run_append: "run num s (es @ es') = run num (run num s es) es'"
  by (simp add: run_def)

lemma run_after_real:
  assumes "controller_ok num s" "has_real_user (messages s)"
  shows "has_real_user (messages (run num s es)) \<and>
         grows_untagged (messages s) (messages (run num s es)) \<and>
         pending_rounds (run num s es) \<le> pending_rounds s \<and>
         request_budget (run num s es) \<le> request_budget s"
  using assms
proof (induction es arbitrary: s)
  case Nil
  then show ?case by simp
next
  case (Cons e es)
  let ?s1 = "step num s e"
  have ok1: "controller_ok num ?s1" using Cons.prems(1) by (rule step_ok)
  have g1: "grows_untagged (messages s) (messages ?s1)"
    using Cons.prems by (rule step_grows)
  have r1: "has_real_user (messages ?s1)"
    using Cons.prems by (rule step_stays_real)
  have c1: "pending_rounds ?s1 \<le> pending_rounds s \<and> request_budget ?s1 \<le> request_budget s"
    using Cons.prems by (rule step_counts)
  from Cons.IH [OF ok1 r1] g1 c1 show ?case
    by (auto intro: grows_trans)
qed

lemma runAutoPreview_sent: "\<exists>ext. sent (runAutoPreview c s) = sent s @ ext"
  by (simp add: runAutoPreview_def Let_def preview_catch_def preview_send_def
      split: option.splits ensure_outcome.splits)

lemma sendTestMessage_sent: "\<exists>ext. sent (sendTestMessage s) = sent s @ ext"
  by (simp add: sendTestMessage_def Let_def test_catch_def test_send_def
      split: option.splits ensure_outcome.splits)

lemma fire_timer_sent: "\<exists>ext. sent (fire_timer h s) = sent s @ ext"
proof (cases "find (\<lambda>t. handle t = h) (timers s)")
  case None
  then show ?thesis by (simp add: fire_timer_def)
next
  case (Some t)
  have "sent (set_hash (t_hash t) (clearTimeout h s)) = sent s"
    by (simp add: set_hash_def clearTimeout_def)
  then show ?thesis
    using Some runAutoPreview_sent [of "t_run t" "set_hash (t_hash t) (clearTimeout h s)"]
    by (simp add: fire_timer_def)
qed

lemma on_token_response_sent: "\<exists>ext. sent (on_token_response num k resp s) = sent s @ ext"
proof (cases "map_of (inflight s) k")
  case None
  then show ?thesis by (simp add: on_token_response_def)
next
  case (Some tk)
  then show ?thesis
    by (cases tk; cases resp)
       (simp_all add: on_token_response_def preview_catch_def preview_send_def test_catch_def
          test_send_def)
qed

lemma on_chat_response_sent: "\<exists>ext. sent (on_chat_response k resp s) = sent s @ ext"
proof (cases "map_of (inflight s) k")
  case None
  then show ?thesis by (simp add: on_chat_response_def)
next
  case (Some tk)
  then show ?thesis
    by (cases tk; cases resp)
       (simp_all add: on_chat_response_def preview_catch_def preview_done_def test_catch_def
          test_done_def)
qed

lemma step_sent: "\<exists>ext. sent (step num s e) = sent s @ ext"
  by (cases e)
     (simp_all add: sendTestMessage_sent fire_timer_sent on_token_response_sent
        on_chat_response_sent)

lemma run_sent: "\<exists>ext. sent (run num s es) = sent s @ ext"
proof (induction es arbitrary: s)
  case Nil
  then show ?case by simp
next
  case (Cons e es)
  obtain a where a: "sent (step num s e) = sent s @ a" using step_sent by blast
  obtain b where "sent (run num (step num s e) es) = sent (step num s e) @ b"
    using Cons.IH by blast
  with a show ?case by simp
qed

lemma no_waiting_round_no_request:
  assumes "request_budget s' \<le> request_budget s" "sent s' = sent s @ ext"
    "count_tasks awaits_token (inflight s) = 0"
  shows "preview_requests s' = preview_requests s"
proof -
  have "length (filter is_preview_request ext) = 0"
    using assms by (simp add: request_budget_def preview_requests_def)
  then show ?thesis
    using assms(2) by (simp add: preview_requests_def)
qed

text \<open>
  C1, as stated, fails.  In the concrete session the timer fired and the preview round is
  waiting for its token when the user sends \<open>hello\<close>.  The log now has real user
  activity and no preview request has been sent; when the token arrives, the round sends
  its chat request all the same.
\<close>

theorem preview_request_after_real_user_counterexample:
  "s_real = run slider_json (init 1000 cfg0)
     [SetAgentId (Some 7), AgentLoaded (Some agentA), SetCurrentStep 3, Elapse 800, TimerFire 1,
      SetInput ''hello'', SendTestMessage] \<and>
   has_real_user (messages s_real) \<and>
   preview_requests s_real = [] \<and>
   preview_requests (step slider_json s_real (TokenResponse 0 (Some (''tok'', 3600))))
     = [preview_request closure0 agentA ''tok'']"
proof -
  have "has_real_user (messages s_real) \<and>
   preview_requests s_real = [] \<and>
   preview_requests (step slider_json s_real (TokenResponse 0 (Some (''tok'', 3600))))
     = [preview_request closure0 agentA ''tok'']"
    by code_simp
  with session_traces(1) show ?thesis by blast
qed

text \<open>
  C1, amended.  From a state whose log has real user activity, after any events whatever
  (configuration changes included): the log still has real user activity (nothing in the
  builder resets it), no timer is pending, the log has only grown, and only by messages
  whose ids are not tagged as preview, no preview round has been started (the suspended
  rounds have not increased), and the preview requests sent are at most the earlier ones
  plus one for each round that was already waiting for its token.  In particular, when no
  round was waiting for its token, no preview request is sent at all.
\<close>

theorem no_preview_after_real_user:
  assumes "controller_ok num s" "has_real_user (messages s)"
  shows "has_real_user (messages (run num s es)) \<and>
         timers (run num s es) = [] \<and>
         grows_untagged (messages s) (messages (run num s es)) \<and>
         pending_rounds (run num s es) \<le> pending_rounds s \<and>
         request_budget (run num s es) \<le> request_budget s \<and>
         (count_tasks awaits_token (inflight s) = 0 \<longrightarrow>
            preview_requests (run num s es) = preview_requests s)"
proof -
  note a = run_after_real [OF assms, of es]
  have ok: "controller_ok num (run num s es)" using assms(1) by (rule run_ok)
  have t: "timers (run num s es) = []"
    using ok a by (simp add: ok_real_no_timer)
  obtain ext where e: "sent (run num s es) = sent s @ ext" using run_sent by blast
  have "count_tasks awaits_token (inflight s) = 0 \<longrightarrow>
        preview_requests (run num s es) = preview_requests s"
    using a e no_waiting_round_no_request by blast
  with a t show ?thesis by simp
qed

text \<open>
  The user sends \<open>hello\<close> while the first timer is pending; a configuration change
  and attempts to fire timers afterwards leave no timer and send no preview request.
\<close>

theorem no_preview_after_real_user_witness:
  "controller_ok slider_json s_manual \<and> has_real_user (messages s_manual) \<and>
   count_tasks awaits_token (inflight s_manual) = 0 \<and>
   timers (run slider_json s_manual [ConfigChange cfg1, Elapse 900, TimerFire 1, TimerFire 2]) = [] \<and>
   preview_requests (run slider_json s_manual [ConfigChange cfg1, Elapse 900, TimerFire 1, TimerFire 2])
     = preview_requests s_manual"
proof -
  have ok: "controller_ok slider_json s_manual"
    unfolding s_manual_def using scenario_ok(1) by (rule run_ok)
  have r: "has_real_user (messages s_manual)" by code_simp
  have c: "count_tasks awaits_token (inflight s_manual) = 0" by code_simp
  show ?thesis
    using ok r c
      no_preview_after_real_user [OF ok r, of "[ConfigChange cfg1, Elapse 900, TimerFire 1, TimerFire 2]"]
    by simp
qed

text \<open>
  C4.  Once the log has real user activity, whatever happens until the answer to an
  in-flight preview chat request arrives, that answer (a reply or a failure) only ends the
  suspended round: the log and everything else stay as they are.
\<close>

theorem preview_response_discarded:
  assumes "controller_ok num s" "has_real_user (messages s)"
    "map_of (inflight (run num s es)) k = Some (PreviewAwaitChat pum)"
  shows "step num (run num s es) (ChatResponse k resp) = resume k (run num s es) \<and>
         messages (step num (run num s es) (ChatResponse k resp)) = messages (run num s es)"
proof -
  have ok: "controller_ok num (run num s es)" using assms(1) by (rule run_ok)
  have "has_real_user (messages (run num s es))"
    using run_after_real [OF assms(1,2)] by simp
  then have "has_real_user (messagesRef (resume k (run num s es)))"
    using ok by (simp add: controller_ok_ref)
  then have "step num (run num s es) (ChatResponse k resp) = resume k (run num s es)"
    using assms(3) by (cases resp) (simp_all add: on_chat_response_def)
  then show ?thesis by simp
qed

text \<open>
  The user sends \<open>hello\<close> while the preview's chat request is in flight; the reply to
  the user's message arrives first, and the preview's reply is then dropped.
\<close>

theorem preview_response_discarded_witness:
  "controller_ok slider_json s_race \<and> has_real_user (messages s_race) \<and>
   map_of (inflight (run slider_json s_race [ChatResponse 2 (Some ''Hi'')])) 1 = Some (PreviewAwaitChat pum0) \<and>
   messages (step slider_json (run slider_json s_race [ChatResponse 2 (Some ''Hi'')])
        (ChatResponse 1 (Some ''I am your concierge.'')))
     = messages (run slider_json s_race [ChatResponse 2 (Some ''Hi'')])"
proof -
  have ok: "controller_ok slider_json s_race"
    unfolding s_race_def s_inflight_def by (intro run_ok scenario_ok(2))
  have r: "has_real_user (messages s_race)" by code_simp
  have m: "map_of (inflight (run slider_json s_race [ChatResponse 2 (Some ''Hi'')])) 1
      = Some (PreviewAwaitChat pum0)" by code_simp
  show ?thesis
    using ok r m preview_response_discarded [OF ok r m, of "Some ''I am your concierge.''"]
    by simp
qed

section \<open>Failure and teardown\<close>


lemma preview_catch_controller:
  "is_preview_prompt pum \<Longrightarrow> previewController (preview_catch pum s) = previewController s"
  "is_preview_prompt pum \<Longrightarrow> timers (preview_catch pum s) = timers s"
  "sent (preview_catch pum s) = sent s"
  "cfg (preview_catch pum s) = cfg s"
  by (simp_all add: preview_catch_def setMessages_quiet preview_prompt_not_real)

lemma runAutoPreview_controller:
  "previewController (runAutoPreview c s) = previewController s"
  "timers (runAutoPreview c s) = timers s"
proof -
  have p: "is_preview_prompt (previewUserMessage c (now s))" by simp
  have q: "\<not> has_real_user [previewUserMessage c (now s)]"
    by (simp add: preview_prompt_not_real)
  show "previewController (runAutoPreview c s) = previewController s"
    using p q
    by (simp add: runAutoPreview_def Let_def preview_catch_controller setMessages_quiet
        split: option.splits ensure_outcome.splits)
  show "timers (runAutoPreview c s) = timers s"
    using p q
    by (simp add: runAutoPreview_def Let_def preview_catch_controller setMessages_quiet
        split: option.splits ensure_outcome.splits)
qed


lemma torn_down_rerun:
  assumes "held s" "currentStep s \<noteq> 3 \<or> createdAgent s = None \<or> agentId s = None \<or> agentId s = Some 0"
  shows "timers (rerun_debounce num s) = []" "hash (previewController (rerun_debounce num s)) = []"
proof -
  have "timers (debounce_cleanup s) = []" using assms(1) by (rule held_cleanup)
  then show "timers (rerun_debounce num s) = []"
    using assms(2)
    by (simp add: rerun_debounce_def debounce_effect_def set_hash_def clear_pending_def
        clearTimeout_def split: option.splits)
  show "hash (previewController (rerun_debounce num s)) = []"
    using assms(2)
    by (simp add: rerun_debounce_def debounce_effect_def set_hash_def)
qed



text \<open>
  C5, as stated, fails.  In the concrete session the hash of the first configuration is
  recorded and a second timer is pending; leaving the configuration step clears the timer
  and also resets the recorded hash to the empty string.
\<close>

theorem teardown_resets_hash_counterexample:
  "s_settled = run slider_json (init 1000 cfg0)
     [SetAgentId (Some 7), AgentLoaded (Some agentA), SetCurrentStep 3, Elapse 800, TimerFire 1,
      TokenResponse 0 (Some (''tok'', 3600)), ChatResponse 1 (Some ''Hello'')] \<and>
   s_rearmed = run slider_json s_settled [ConfigChange cfg1] \<and>
   timers s_rearmed = [\<lparr>handle = 2, due = 2600, t_hash = hash1,
                        t_run = closure0\<lparr>c_webSearchEnabled := True, c_tokens := tokens1\<rparr>\<rparr>] \<and>
   hash (previewController s_rearmed) = hash0 \<and>
   hash0 \<noteq> [] \<and>
   hash (previewController (step slider_json s_rearmed (SetCurrentStep 4))) = []"
proof -
  have "timers s_rearmed = [\<lparr>handle = 2, due = 2600, t_hash = hash1,
                        t_run = closure0\<lparr>c_webSearchEnabled := True, c_tokens := tokens1\<rparr>\<rparr>] \<and>
   hash (previewController s_rearmed) = hash0 \<and>
   hash0 \<noteq> [] \<and>
   hash (previewController (step slider_json s_rearmed (SetCurrentStep 4))) = []"
    by code_simp
  with session_traces(2,3) show ?thesis by blast
qed

text \<open>
  C5, amended.  Leaving the configuration step, the agent record becoming unavailable, or
  the agent id becoming unset leaves no timer pending, sends nothing, and keeps the log, the
  suspended calls and the token cache; the recorded hash is reset to the empty string.
  Removing the component from the page runs only the cleanup: no timer is pending, nothing
  is sent, and the recorded hash is kept.
\<close>

theorem teardown_clears_timer:
  assumes "controller_ok num s"
  shows "(currentStep s = 3 \<longrightarrow> n \<noteq> 3 \<longrightarrow>
            torn_down s (step num s (SetCurrentStep n)) \<and>
            hash (previewController (step num s (SetCurrentStep n))) = []) \<and>
         (torn_down s (step num s (AgentLoaded None)) \<and>
            hash (previewController (step num s (AgentLoaded None))) = []) \<and>
         (a \<noteq> agentId s \<longrightarrow> a = None \<or> a = Some 0 \<longrightarrow>
            torn_down s (step num s (SetAgentId a)) \<and>
            hash (previewController (step num s (SetAgentId a))) = []) \<and>
         (torn_down s (unmount s) \<and>
            hash (previewController (unmount s)) = hash (previewController s))"
proof -
  have h: "held s" using assms by (rule controller_ok_held)
  have u: "timers (debounce_cleanup s) = []" using h by (rule held_cleanup)
  have 1: "currentStep s = 3 \<longrightarrow> n \<noteq> 3 \<longrightarrow>
            torn_down s (step num s (SetCurrentStep n)) \<and>
            hash (previewController (step num s (SetCurrentStep n))) = []"
    using h torn_down_rerun [of "s\<lparr>currentStep := n\<rparr>" num]
    by (simp add: torn_down_def)
  have 2: "torn_down s (step num s (AgentLoaded None)) \<and>
            hash (previewController (step num s (AgentLoaded None))) = []"
    using h torn_down_rerun [of "s\<lparr>createdAgent := None\<rparr>" num]
    by (simp add: torn_down_def)
  have 3: "a \<noteq> agentId s \<longrightarrow> a = None \<or> a = Some 0 \<longrightarrow>
            torn_down s (step num s (SetAgentId a)) \<and>
            hash (previewController (step num s (SetAgentId a))) = []"
    using h torn_down_rerun [of "s\<lparr>agentId := a\<rparr>" num]
    by (auto simp: torn_down_def)
  have 4: "torn_down s (unmount s) \<and>
            hash (previewController (unmount s)) = hash (previewController s)"
    using u by (simp add: torn_down_def unmount_def)
  show ?thesis using 1 2 3 4 by blast
qed

text \<open>
  With the second timer pending, going on to step 4 or unmounting leaves no timer.
\<close>

theorem teardown_clears_timer_witness:
  "controller_ok slider_json s_rearmed \<and> currentStep s_rearmed = 3 \<and> (4::int) \<noteq> 3 \<and>
   timers s_rearmed \<noteq> [] \<and>
   timers (step slider_json s_rearmed (SetCurrentStep 4)) = [] \<and>
   sent (step slider_json s_rearmed (SetCurrentStep 4)) = sent s_rearmed \<and>
   timers (unmount s_rearmed) = [] \<and>
   hash (previewController (unmount s_rearmed)) = hash (previewController s_rearmed)"
proof -
  have ok: "controller_ok slider_json s_rearmed"
    unfolding s_rearmed_def s_settled_def s_inflight_def by (intro run_ok scenario_ok(2))
  have c: "currentStep s_rearmed = 3" by code_simp
  have t: "timers s_rearmed \<noteq> []" by code_simp
  show ?thesis
    using ok c t teardown_clears_timer [OF ok, of 4 "Some 0"]
    by (simp add: torn_down_def)
qed

section \<open>Bursts of configuration changes\<close>

lemma same_session_refl [simp]: "same_session x x"
  by (simp add: same_session_def)

lemma same_session_trans: "same_session x y \<Longrightarrow> same_session y z \<Longrightarrow> same_session x z"
  by (simp add: same_session_def)

lemma same_session_elapse [simp]: "same_session x (x\<lparr>now := t\<rparr>)"
  by (simp add: same_session_def)

lemma debounce_effect_arms:
  assumes "timers z = []" "\<not> has_real_user (messagesRef z)" "currentStep z = 3"
    "createdAgent z = Some ag" "agentId z = Some a" "a \<noteq> 0"
  shows "same_session z (debounce_effect num z) \<and>
         cfg (debounce_effect num z) = cfg z \<and>
         now (debounce_effect num z) = now z \<and>
         armed_for num (hash (previewController z)) (debounce_effect num z)"
  using assms
  by (simp add: debounce_effect_def same_session_def armed_for_def Let_def clearTimeout_def
      closure_of_def split: option.splits)

lemma change_arms:
  assumes "controller_ok num x" "currentStep x = 3" "agent_ready (agentId x) (createdAgent x)"
    "\<not> has_real_user (messages x)"
  shows "same_session x (step num x (ConfigChange c)) \<and>
         cfg (step num x (ConfigChange c)) = c \<and>
         now (step num x (ConfigChange c)) = now x \<and>
         armed_for num (hash (previewController x)) (step num x (ConfigChange c))"
proof -
  let ?y = "debounce_cleanup (x\<lparr>cfg := c\<rparr>)"
  have "held (x\<lparr>cfg := c\<rparr>)"
    using assms(1) by (simp add: controller_ok_held)
  then have t: "timers ?y = []" by (rule held_cleanup)
  have r: "\<not> has_real_user (messagesRef ?y)"
    using assms(1,4) by (simp add: controller_ok_ref)
  obtain ag a where g: "createdAgent ?y = Some ag" "agentId ?y = Some a" "a \<noteq> 0"
    using assms(3) by (auto simp: agent_ready_def)
  have s3: "currentStep ?y = 3" using assms(2) by simp
  have xy: "same_session x ?y" "cfg ?y = c" "now ?y = now x"
    "hash (previewController ?y) = hash (previewController x)"
    by (simp_all add: same_session_def)
  have e: "step num x (ConfigChange c) = debounce_effect num ?y"
    by (simp add: rerun_debounce_def)
  from debounce_effect_arms [OF t r s3 g, of num] xy
  show ?thesis
    unfolding e by (auto intro: same_session_trans)
qed

lemma fire_not_due:
  assumes "case timers x of [] \<Rightarrow> True | [t] \<Rightarrow> now x < due t | _ \<Rightarrow> False"
  shows "fire_timer h x = x"
  using assms by (auto simp: fire_timer_def split: list.splits option.splits if_splits)

lemma fires_not_due:
  assumes "case timers x of [] \<Rightarrow> True | [t] \<Rightarrow> now x < due t | _ \<Rightarrow> False"
  shows "run num x (map TimerFire hs) = x"
  using assms by (induction hs) (simp_all add: fire_not_due)

lemma armed_not_due:
  assumes "armed_for num H x" "d < 800"
  shows "case timers (step num x (Elapse d)) of
           [] \<Rightarrow> True
         | [t] \<Rightarrow> now (step num x (Elapse d)) < due t
         | _ \<Rightarrow> False"
  using assms by (auto simp: armed_for_def split: if_splits list.splits)

lemma burst_inv:
  assumes "controller_ok num x" "currentStep x = 3" "agent_ready (agentId x) (createdAgent x)"
    "\<not> has_real_user (messages x)" "armed_for num (hash (previewController x)) x"
    "list_all (\<lambda>p. fst p < 800) rest"
  shows "same_session x (run num x (burst rest)) \<and>
         armed_for num (hash (previewController x)) (run num x (burst rest)) \<and>
         cfg (run num x (burst rest)) = last_config (cfg x) rest"
  using assms
proof (induction rest arbitrary: x)
  case Nil
  then show ?case by simp
next
  case (Cons a rest)
  obtain d hs c where a: "a = (d, hs, c)" by (cases a)
  let ?x1 = "step num x (Elapse d)"
  let ?x2 = "step num ?x1 (ConfigChange c)"
  from Cons.prems(6) a have d: "d < 800" and rest: "list_all (\<lambda>p. fst p < 800) rest"
    by simp_all
  have nf: "run num ?x1 (map TimerFire hs) = ?x1"
    using armed_not_due [OF Cons.prems(5) d] by (rule fires_not_due)
  have r: "run num x (burst (a # rest)) = run num ?x2 (burst rest)"
    using nf by (simp add: a run_append del: step.simps)
  have ok1: "controller_ok num ?x1" using Cons.prems(1) by simp
  have p1: "currentStep ?x1 = 3" "agent_ready (agentId ?x1) (createdAgent ?x1)"
    "\<not> has_real_user (messages ?x1)"
    using Cons.prems(2,3,4) by simp_all
  note ch = change_arms [OF ok1 p1, of c]
  have h1: "hash (previewController ?x1) = hash (previewController x)" by simp
  have s12: "same_session x ?x2"
    using ch same_session_trans [of x ?x1 ?x2] by simp
  have ok2: "controller_ok num ?x2" using ok1 by (rule step_ok)
  have p2: "currentStep ?x2 = 3" "agent_ready (agentId ?x2) (createdAgent ?x2)"
    "\<not> has_real_user (messages ?x2)" "hash (previewController ?x2) = hash (previewController x)"
    using s12 Cons.prems(2,3,4) by (simp_all add: same_session_def)
  have ar2: "armed_for num (hash (previewController ?x2)) ?x2"
    using ch h1 p2(4) by simp
  from Cons.IH [OF ok2 p2(1,2,3) ar2 rest]
  have "same_session ?x2 (run num ?x2 (burst rest)) \<and>
        armed_for num (hash (previewController x)) (run num ?x2 (burst rest)) \<and>
        cfg (run num ?x2 (burst rest)) = last_config c rest"
    using p2(4) ch by (simp del: step.simps)
  then show ?case
    using s12 unfolding r by (auto simp: a intro: same_session_trans)
qed

lemma fire_starts_round:
  assumes "controller_ok num x" "timers x = [t]" "due t \<le> now x"
  shows "starts_round x (step num x (TimerFire (handle t))) \<and>
         hash (previewController (step num x (TimerFire (handle t)))) = t_hash t"
proof -
  from assms(1,2) have c: "t_run t = closure_of x" "messagesRef x = messages x"
    "\<not> has_real_user (messages x)" "agent_ready (agentId x) (createdAgent x)"
    by (simp_all add: controller_ok_def)
  then obtain ag where ag: "createdAgent x = Some ag"
    by (auto simp: agent_ready_def)
  let ?x0 = "set_hash (t_hash t) (clearTimeout (handle t) x)"
  have f: "step num x (TimerFire (handle t)) = runAutoPreview (closure_of x) ?x0"
    using assms(2,3) c(1) by (simp add: fire_timer_def)
  have x0: "messagesRef ?x0 = messages x" "now ?x0 = now x" "sent ?x0 = sent x"
    "inflight ?x0 = inflight x" "next_task ?x0 = next_task x" "timers ?x0 = []"
    "hash (previewController ?x0) = t_hash t"
    using assms(2) c(2) by (simp_all add: set_hash_def clearTimeout_def)
  have q: "\<not> has_real_user [previewUserMessage (closure_of x) (now x)]"
    by (simp add: preview_prompt_not_real)
  have cl: "c_createdAgent (closure_of x) = Some ag" "c_agentId (closure_of x) = agentId x"
    "c_tokens (closure_of x) = tokens x"
    using ag by (simp_all add: closure_of_def)
  have "starts_round x (runAutoPreview (closure_of x) ?x0)"
    using x0 c(3,4) q cl ag
    by (simp add: starts_round_def runAutoPreview_def Let_def preview_send_def suspend_def
        send_def setMessages_quiet ensure_start_def split: option.splits)
  moreover have "hash (previewController (runAutoPreview (closure_of x) ?x0)) = t_hash t"
    using x0(7) by (simp add: runAutoPreview_controller)
  ultimately show ?thesis by (simp only: f)
qed

lemma token_arrives_sends_preview:
  "map_of (inflight x) k = Some (PreviewAwaitToken cl ag pum) \<Longrightarrow>
   sent (step num x (TokenResponse k (Some r))) = sent x @ [preview_request cl ag (fst r)]"
  by (simp add: on_token_response_def preview_send_def)

text \<open>
  C2, as stated, fails.  In the concrete session the hash of the first configuration is
  recorded.  Web search is switched on, which arms a timer, and 300 ms later it is switched
  off again: the burst of two changes ends with no timer pending, and 800 ms later nothing
  has been sent.
\<close>

theorem burst_back_to_recorded_counterexample:
  "s_settled = run slider_json (init 1000 cfg0)
     [SetAgentId (Some 7), AgentLoaded (Some agentA), SetCurrentStep 3, Elapse 800, TimerFire 1,
      TokenResponse 0 (Some (''tok'', 3600)), ChatResponse 1 (Some ''Hello'')] \<and>
   s_rearmed = run slider_json s_settled [ConfigChange cfg1] \<and>
   s_back = run slider_json s_settled [ConfigChange cfg1, Elapse 300, ConfigChange cfg0] \<and>
   hash (previewController s_settled) = hash0 \<and>
   timers s_rearmed \<noteq> [] \<and>
   cfg s_back = cfg0 \<and>
   timers s_back = [] \<and>
   sent (run slider_json s_back [Elapse 800, TimerFire 2, TimerFire 3]) = sent s_settled"
proof -
  have "hash (previewController s_settled) = hash0 \<and>
   timers s_rearmed \<noteq> [] \<and>
   cfg s_back = cfg0 \<and>
   timers s_back = [] \<and>
   sent (run slider_json s_back [Elapse 800, TimerFire 2, TimerFire 3]) = sent s_settled"
    by code_simp
  with session_traces(2,3,4) show ?thesis by blast
qed

text \<open>
  C2, amended.  On the preview step, with the agent loaded and no real user message, take a
  configuration change followed by further changes, each less than 800 ms after the one
  before, the runtime being free to try any timer in between.  During the burst nothing is
  sent, no round is started, the log and the recorded hash stay as they were: no timer of
  the burst fires.  After it the configuration is the last one of the burst, and: when its
  hash is the recorded hash, no timer is pending and none can fire; otherwise exactly one
  timer is pending, due 800 ms after the last change, with the hash and the values of the
  last configuration; it cannot fire earlier, and when it fires it records that hash and
  starts exactly one preview round from those values, sending one request (the preview chat
  request when the cached token is usable, the token request otherwise, and then the
  preview chat request of that round when the token arrives).
\<close>

theorem debounce_coalesces:
  assumes "controller_ok num s" "currentStep s = 3" "agent_ready (agentId s) (createdAgent s)"
    "\<not> has_real_user (messages s)" "list_all (\<lambda>p. fst p < 800) rest"
  shows "let s' = run num s (ConfigChange c0 # burst rest)
         in same_session s s' \<and>
            cfg s' = last_config c0 rest \<and>
            armed_for num (hash (previewController s)) s' \<and>
            (\<forall>d h. timers s' = [] \<or> d < 800 \<longrightarrow>
               step num (step num s' (Elapse d)) (TimerFire h) = step num s' (Elapse d)) \<and>
            (\<forall>d t. timers s' = [t] \<longrightarrow> 800 \<le> d \<longrightarrow>
               starts_round (step num s' (Elapse d))
                 (step num (step num s' (Elapse d)) (TimerFire (handle t))) \<and>
               hash (previewController (step num (step num s' (Elapse d)) (TimerFire (handle t))))
                 = config_hash num (last_config c0 rest)) \<and>
            (\<forall>x k cl ag pum r. map_of (inflight (x :: 'n state)) k = Some (PreviewAwaitToken cl ag pum) \<longrightarrow>
               sent (step num x (TokenResponse k (Some r))) = sent x @ [preview_request cl ag (fst r)])"
proof -
  let ?s1 = "step num s (ConfigChange c0)"
  let ?s' = "run num s (ConfigChange c0 # burst rest)"
  let ?H = "hash (previewController s)"
  note ch = change_arms [OF assms(1,2,3,4), of c0]
  have ok1: "controller_ok num ?s1" using assms(1) by (rule step_ok)
  have p1: "currentStep ?s1 = 3" "agent_ready (agentId ?s1) (createdAgent ?s1)"
    "\<not> has_real_user (messages ?s1)" "hash (previewController ?s1) = ?H"
    using ch assms(2,3,4) by (simp_all add: same_session_def)
  have ar1: "armed_for num (hash (previewController ?s1)) ?s1"
    using ch p1(4) by simp
  note bi = burst_inv [OF ok1 p1(1,2,3) ar1 assms(5)]
  have e: "?s' = run num ?s1 (burst rest)" by simp
  have ss: "same_session s ?s'"
    using ch bi same_session_trans [of s ?s1 "run num ?s1 (burst rest)"]
    unfolding e by blast
  have cf: "cfg ?s' = last_config c0 rest"
    using ch bi unfolding e by simp
  have ar: "armed_for num ?H ?s'"
    using bi p1(4) unfolding e by simp
  have ok': "controller_ok num ?s'" using assms(1) by (rule run_ok)
  have nf: "step num (step num ?s' (Elapse d)) (TimerFire h) = step num ?s' (Elapse d)"
    if "timers ?s' = [] \<or> d < 800" for d h
  proof -
    have "case timers (step num ?s' (Elapse d)) of
            [] \<Rightarrow> True
          | [t] \<Rightarrow> now (step num ?s' (Elapse d)) < due t
          | _ \<Rightarrow> False"
      using that armed_not_due [OF ar, of d] by (auto simp del: run_Cons)
    then have "fire_timer h (step num ?s' (Elapse d)) = step num ?s' (Elapse d)"
      by (rule fire_not_due)
    then show ?thesis by (simp del: run_Cons)
  qed
  have fr: "starts_round (step num ?s' (Elapse d))
              (step num (step num ?s' (Elapse d)) (TimerFire (handle t))) \<and>
            hash (previewController (step num (step num ?s' (Elapse d)) (TimerFire (handle t))))
              = config_hash num (last_config c0 rest)"
    if "timers ?s' = [t]" "800 \<le> d" for d t
  proof -
    let ?x = "step num ?s' (Elapse d)"
    have okx: "controller_ok num ?x" using ok' by (rule step_ok)
    have tx: "timers ?x = [t]" using that(1) by (simp del: run_Cons)
    from ar that(1) have "due t = now ?s' + 800" "t_hash t = config_hash num (cfg ?s')"
      by (auto simp: armed_for_def simp del: run_Cons split: if_splits)
    then have du: "due t \<le> now ?x" and th: "t_hash t = config_hash num (last_config c0 rest)"
      using that(2) cf by (simp_all del: run_Cons)
    from fire_starts_round [OF okx tx du] th show ?thesis by (simp only:)
  qed
  show ?thesis
    unfolding Let_def using ss cf ar nf fr token_arrives_sends_preview by blast
qed

text \<open>
  After the first round has settled, web search is switched on, 300 ms later the persona
  is changed, and 500 ms later it is changed back: nothing has been sent, and one timer is
  pending for the configuration with web search on.
\<close>

theorem debounce_coalesces_witness:
  "controller_ok slider_json s_settled \<and> currentStep s_settled = 3 \<and>
   agent_ready (agentId s_settled) (createdAgent s_settled) \<and>
   \<not> has_real_user (messages s_settled) \<and>
   list_all (\<lambda>p. fst p < 800) [(300 :: nat, [2 :: nat], cfg2), (500, [2, 3], cfg1)] \<and>
   config_hash slider_json cfg1 \<noteq> hash (previewController s_settled) \<and>
   cfg (run slider_json s_settled (ConfigChange cfg1 # burst [(300, [2], cfg2), (500, [2, 3], cfg1)]))
     = cfg1 \<and>
   sent (run slider_json s_settled (ConfigChange cfg1 # burst [(300, [2], cfg2), (500, [2, 3], cfg1)]))
     = sent s_settled \<and>
   armed_for slider_json (hash (previewController s_settled))
     (run slider_json s_settled (ConfigChange cfg1 # burst [(300, [2], cfg2), (500, [2, 3], cfg1)]))"
proof -
  have ok: "controller_ok slider_json s_settled"
    unfolding s_settled_def s_inflight_def by (intro run_ok scenario_ok(2))
  have c3: "currentStep s_settled = 3" by code_simp
  have rd: "agent_ready (agentId s_settled) (createdAgent s_settled)" by code_simp
  have q: "\<not> has_real_user (messages s_settled)" by code_simp
  have g: "list_all (\<lambda>p. fst p < 800) [(300 :: nat, [2 :: nat], cfg2), (500, [2, 3], cfg1)]"
    by simp
  have "hash1 \<noteq> hash (previewController s_settled)" by code_simp
  then have n: "config_hash slider_json cfg1 \<noteq> hash (previewController s_settled)"
    by (simp add: hash1_def)
  let ?r = "run slider_json s_settled
              (ConfigChange cfg1 # burst [(300, [2], cfg2), (500, [2, 3], cfg1)])"
  from debounce_coalesces [OF ok c3 rd q g, of cfg1]
  have a: "same_session s_settled ?r" and b: "cfg ?r = last_config cfg1 [(300, [2], cfg2), (500, [2, 3], cfg1)]"
    and c: "armed_for slider_json (hash (previewController s_settled)) ?r"
    unfolding Let_def by blast+
  from a have d: "sent ?r = sent s_settled"
    unfolding same_session_def by blast
  from b have b': "cfg ?r = cfg1" by (simp only: last_config.simps)
  show ?thesis
    using ok c3 rd q g n b' d c by blast
qed

end
